theory Spec2Isabelle
  imports Complex_Main
begin

section \<open>Python values and exceptions\<close>

text \<open>
  Three kinds of values occur. \<open>json\<close> is what \<open>response.json()\<close> returns and
  what the adapters build from it. \<open>pyval\<close> is what a host may hand to a bound tool
  (\<open>Any\<close>). \<open>PyModel fs\<close> is an instance of a pydantic model with the fields
  \<open>fs\<close>; \<open>PyRootModel v\<close> is an instance of a pydantic root model with root
  value \<open>v\<close>; \<open>PyDumpable v\<close> is an object that is not a pydantic model but has
  a \<open>model_dump\<close> method, which returns \<open>v\<close>; \<open>PyObject\<close> is any other
  object. A dictionary is an association list with distinct keys, read with
  \<open>map_of\<close>. \<open>pynum\<close> is a Python number: an int, or a float, which is a finite
  double (\<open>PFloat q\<close> is the double whose exact value is \<open>q\<close>), an infinity or a
  NaN.
\<close>

datatype json =
    JNull
  | JBool bool
  | JInt int
  | JFloat rat
  | JStr string
  | JList "json list"
  | JDict "(string \<times> json) list"

datatype pyval =
    PyNone
  | PyBool bool
  | PyInt int
  | PyFloat rat
  | PyStr string
  | PyList "pyval list"
  | PyDict "(string \<times> pyval) list"
  | PyModel "(string \<times> pyval) list"
  | PyRootModel pyval
  | PyDumpable pyval
  | PyObject string

datatype pynum = PInt int | PFloat rat | PInf | PNegInf | PNaN

type_synonym pydict = "(string \<times> pyval) list"

text \<open>
  Exceptions, by class. \<open>ToolExecutionError\<close> and \<open>ConfigurationError\<close> are the
  classes of \<open>utils/errors.py\<close>; \<open>ValidationError\<close> is pydantic's; the others
  are Python built-ins. \<open>OtherException cls msg\<close> is an exception of any other class
  derived from \<open>Exception\<close>.
\<close>

datatype exn =
    ToolExecutionError string
  | ConfigurationError string
  | ValidationError string
  | ValueError string
  | RuntimeError string
  | TypeError string
  | AttributeError string
  | OverflowError string
  | OtherException string string

fun str_exn :: "exn \<Rightarrow> string" where
  "str_exn (ToolExecutionError m) = m"
| "str_exn (ConfigurationError m) = m"
| "str_exn (ValidationError m) = m"
| "str_exn (ValueError m) = m"
| "str_exn (RuntimeError m) = m"
| "str_exn (TypeError m) = m"
| "str_exn (AttributeError m) = m"
| "str_exn (OverflowError m) = m"
| "str_exn (OtherException c m) = m"

text \<open>Decimal rendering of an integer inside an f-string.\<close>

definition digit_char :: "nat \<Rightarrow> char" where
  "digit_char d = ''0123456789'' ! d"

fun str_nat :: "nat \<Rightarrow> string" where
  "str_nat n = (if n < 10 then [digit_char n] else str_nat (n div 10) @ [digit_char (n mod 10)])"

declare str_nat.simps [simp del]

definition str_int :: "int \<Rightarrow> string" where
  "str_int i = (if i < 0 then CHR ''-'' # str_nat (nat (- i)) else str_nat (nat i))"

section \<open>The resilient HTTP transport (utils/http.py)\<close>

text \<open>
  What one pass through the \<open>try\<close> body of \<open>request\<close> does: it returns the parsed
  JSON body, or it raises. \<open>HTTPStatusError code reason text s\<close> is the exception of
  \<open>raise_for_status()\<close> for a response received with an error status (status code,
  reason phrase, response text, and \<open>str(exc)\<close>); \<open>RequestError\<close> and
  \<open>TimeoutException\<close> stand for every instance of these httpx classes (connection
  errors and timeouts among them); \<open>UnexpectedError\<close> is any other \<open>Exception\<close>,
  such as a body that does not parse.
\<close>

datatype httpx_exn =
    HTTPStatusError nat string string string
  | RequestError string
  | TimeoutException string
  | UnexpectedError string

datatype attempt_outcome = Returned json | Raised httpx_exn

fun str_httpx :: "httpx_exn \<Rightarrow> string" where
  "str_httpx (HTTPStatusError code reason txt s) = s"
| "str_httpx (RequestError s) = s"
| "str_httpx (TimeoutException s) = s"
| "str_httpx (UnexpectedError s) = s"

text \<open>
  Python's arithmetic on the backoff factor. \<open>less_than_zero x\<close> is \<open>0 > x\<close>,
  the comparison \<open>max(x, 0)\<close> makes: when it holds the int \<open>0\<close> is taken, else
  \<open>x\<close> itself (a NaN compares false and is kept). \<open>num_truthy\<close> is the test
  \<open>if sleep_for:\<close>.
\<close>

fun less_than_zero :: "pynum \<Rightarrow> bool" where
  "less_than_zero (PInt i) = (i < 0)"
| "less_than_zero (PFloat q) = (q < 0)"
| "less_than_zero PInf = False"
| "less_than_zero PNegInf = True"
| "less_than_zero PNaN = False"

definition max_zero :: "pynum \<Rightarrow> pynum" where
  "max_zero x = (if less_than_zero x then PInt 0 else x)"

fun num_truthy :: "pynum \<Rightarrow> bool" where
  "num_truthy (PInt i) = (i \<noteq> 0)"
| "num_truthy (PFloat q) = (q \<noteq> 0)"
| "num_truthy PInf = True"
| "num_truthy PNegInf = True"
| "num_truthy PNaN = True"

text \<open>
  The product \<open>x * 2**k\<close>. For an int \<open>x\<close> it is exact. For a float \<open>x\<close>
  Python first converts the int \<open>2**k\<close> to a float, which raises
  \<open>OverflowError\<close> from \<open>k = 1024\<close> on, whatever \<open>x\<close> is; below that the
  float product of a double and a power of two is the exact product when its magnitude
  is below \<open>2^1024\<close>, and an infinity otherwise (float multiplication does not
  raise).
\<close>

definition float_result :: "rat \<Rightarrow> pynum" where
  "float_result p =
     (if 2 ^ 1024 \<le> p then PInf else if p \<le> - (2 ^ 1024) then PNegInf else PFloat p)"

definition int_too_large :: exn where
  "int_too_large = OverflowError ''int too large to convert to float''"

fun mul_pow2 :: "pynum \<Rightarrow> nat \<Rightarrow> exn + pynum" where
  "mul_pow2 (PInt i) k = Inr (PInt (i * 2 ^ k))"
| "mul_pow2 (PFloat q) k =
     (if 1024 \<le> k then Inl int_too_large else Inr (float_result (q * 2 ^ k)))"
| "mul_pow2 PInf k = (if 1024 \<le> k then Inl int_too_large else Inr PInf)"
| "mul_pow2 PNegInf k = (if 1024 \<le> k then Inl int_too_large else Inr PNegInf)"
| "mul_pow2 PNaN k = (if 1024 \<le> k then Inl int_too_large else Inr PNaN)"

record http_client =
  base_url :: "string option"
  headers :: "(string \<times> string) list"
  timeout :: "rat option"
  retries :: int
  backoff_factor :: pynum

text \<open>\<open>__init__\<close>: negative retries and a negative backoff factor are clamped to 0.\<close>

definition ResilientAsyncHTTPClient ::
  "string option \<Rightarrow> (string \<times> string) list option \<Rightarrow> rat option \<Rightarrow> int \<Rightarrow> pynum \<Rightarrow> http_client" where
  "ResilientAsyncHTTPClient bu hs t r b =
     \<lparr> base_url = bu,
       headers = (case hs of None \<Rightarrow> [] | Some h \<Rightarrow> h),
       timeout = t,
       retries = max r 0,
       backoff_factor = max_zero b \<rparr>"

text \<open>
  The observable trace of one call: the network attempts, numbered from 0 in the order
  they are made, and the suspensions (calls of \<open>asyncio.sleep\<close>) with the delay
  asked for.
\<close>

datatype event = Attempt nat | Sleep pynum

fun is_attempt :: "event \<Rightarrow> bool" where
  "is_attempt (Attempt k) = True"
| "is_attempt (Sleep d) = False"

definition n_attempts :: "event list \<Rightarrow> nat" where
  "n_attempts evs = length (filter is_attempt evs)"

text \<open>
  The world outside the client: whether the optional dependency httpx was importable;
  what the \<open>n\<close>-th network attempt (counted from 0) of a call does, given the
  client's settings, the method, the URL and the keyword options; and what
  \<open>asyncio.sleep\<close> does when it is called, after \<open>n\<close> attempts, with a delay: it
  resumes the call, or never does (an infinite delay), or raises.
\<close>

type_synonym network =
  "http_client \<Rightarrow> string \<Rightarrow> string \<Rightarrow> (string \<times> json) list \<Rightarrow> nat \<Rightarrow> attempt_outcome"

datatype sleep_outcome = Resumed | NeverResumes | SleepRaised exn

record http_env =
  httpx_installed :: bool
  session_request :: network
  asyncio_sleep :: "nat \<Rightarrow> pynum \<Rightarrow> sleep_outcome"

text \<open>\<open>_extract_error_detail\<close>: the response text when it is not empty, else \<open>str(exc)\<close>.\<close>

fun extract_error_detail :: "httpx_exn \<Rightarrow> string" where
  "extract_error_detail (HTTPStatusError code reason txt s) = (if txt \<noteq> [] then txt else s)"
| "extract_error_detail e = str_httpx e"

fun is_status_error :: "httpx_exn \<Rightarrow> bool" where
  "is_status_error (HTTPStatusError code reason txt s) = True"
| "is_status_error e = False"

text \<open>The classes of the second \<open>except\<close> clause: the failures that are retried.\<close>

fun is_transient :: "httpx_exn \<Rightarrow> bool" where
  "is_transient (RequestError s) = True"
| "is_transient (TimeoutException s) = True"
| "is_transient e = False"

fun status_error_message :: "httpx_exn \<Rightarrow> string" where
  "status_error_message (HTTPStatusError code reason txt s) =
     ''API request failed: '' @ str_nat code @ '' '' @ reason @ ''. Details: ''
       @ extract_error_detail (HTTPStatusError code reason txt s)"
| "status_error_message e = []"

definition str_last_error :: "httpx_exn option \<Rightarrow> string" where
  "str_last_error le = (case le of None \<Rightarrow> ''None'' | Some e \<Rightarrow> str_httpx e)"

definition exhausted_error :: "http_client \<Rightarrow> httpx_exn option \<Rightarrow> exn" where
  "exhausted_error c le =
     ToolExecutionError (''Request failed after '' @ str_int (retries c + 1)
       @ '' attempts: '' @ str_last_error le)"

text \<open>
  The \<open>while attempt <= self.retries\<close> loop. \<open>net\<close> gives the outcome of each
  attempt of this call and \<open>slp\<close> that of each suspension; \<open>evs\<close> is the trace
  so far. The result is \<open>None\<close> when the call never returns. An exception raised
  inside the second \<open>except\<close> clause (by the product, or by the suspension) is
  caught by no other clause of the same \<open>try\<close> and leaves \<open>request\<close> as it is.
  Logging is left out.
\<close>

function request_loop ::
  "http_client \<Rightarrow> (nat \<Rightarrow> attempt_outcome) \<Rightarrow> (nat \<Rightarrow> pynum \<Rightarrow> sleep_outcome) \<Rightarrow> int
     \<Rightarrow> httpx_exn option \<Rightarrow> event list \<Rightarrow> (exn + json) option \<times> event list" where
  "request_loop c net slp attempt last_error evs =
     (if attempt \<le> retries c then
        (let evs1 = evs @ [Attempt (n_attempts evs)] in
         case net (n_attempts evs) of
           Returned body \<Rightarrow> (Some (Inr body), evs1)
         | Raised e \<Rightarrow>
             if is_status_error e then
               (Some (Inl (ToolExecutionError (status_error_message e))), evs1)
             else if is_transient e then
               (if attempt = retries c then (Some (Inl (exhausted_error c (Some e))), evs1)
                else
                  (case mul_pow2 (backoff_factor c) (nat attempt) of
                     Inl err \<Rightarrow> (Some (Inl err), evs1)
                   | Inr sleep_for \<Rightarrow>
                       if num_truthy sleep_for then
                         (case slp (n_attempts evs1) sleep_for of
                            Resumed \<Rightarrow>
                              request_loop c net slp (attempt + 1) (Some e) (evs1 @ [Sleep sleep_for])
                          | NeverResumes \<Rightarrow> (None, evs1 @ [Sleep sleep_for])
                          | SleepRaised err \<Rightarrow> (Some (Inl err), evs1 @ [Sleep sleep_for]))
                       else request_loop c net slp (attempt + 1) (Some e) evs1))
             else
               (Some (Inl (ToolExecutionError (''Unexpected HTTP error: '' @ str_httpx e))), evs1))
      else (Some (Inl (exhausted_error c last_error)), evs))"
  by pat_completeness auto
termination
  by (relation "measure (\<lambda>(c, net, slp, attempt, last_error, evs). nat (retries c + 1 - attempt))") auto

declare request_loop.simps [simp del]

text \<open>\<open>ResilientAsyncHTTPClient.request\<close>.\<close>

definition request ::
  "http_env \<Rightarrow> http_client \<Rightarrow> string \<Rightarrow> string \<Rightarrow> (string \<times> json) list
     \<Rightarrow> (exn + json) option \<times> event list" where
  "request env c method url kwargs =
     (if \<not> httpx_installed env then
        (Some (Inl (RuntimeError ''httpx is required for HTTP operations'')), [])
      else request_loop c (session_request env c method url kwargs) (asyncio_sleep env) 0 None [])"

text \<open>
  Notions the statements about \<open>request\<close> are written with. An outcome is
  \<open>retryable\<close> when the second \<open>except\<close> clause catches it.
  \<open>delay_events b k\<close> is the suspension the loop asks for after a retried attempt
  \<open>k\<close>: none when the product raises or is zero. \<open>continues\<close> says that the
  loop goes from attempt \<open>k\<close> on to attempt \<open>k + 1\<close>. \<open>retry_trace b k\<close> is
  the trace of \<open>k\<close> attempts each followed by its suspension.
\<close>

fun retryable :: "attempt_outcome \<Rightarrow> bool" where
  "retryable (Returned body) = False"
| "retryable (Raised e) = is_transient e"

definition delay_events :: "pynum \<Rightarrow> nat \<Rightarrow> event list" where
  "delay_events b k =
     (case mul_pow2 b k of
        Inl err \<Rightarrow> []
      | Inr d \<Rightarrow> if num_truthy d then [Sleep d] else [])"

definition delay_passes :: "pynum \<Rightarrow> (nat \<Rightarrow> pynum \<Rightarrow> sleep_outcome) \<Rightarrow> nat \<Rightarrow> bool" where
  "delay_passes b slp k =
     (case mul_pow2 b k of
        Inl err \<Rightarrow> False
      | Inr d \<Rightarrow> if num_truthy d then slp (Suc k) d = Resumed else True)"

definition continues ::
  "http_client \<Rightarrow> (nat \<Rightarrow> attempt_outcome) \<Rightarrow> (nat \<Rightarrow> pynum \<Rightarrow> sleep_outcome) \<Rightarrow> nat \<Rightarrow> bool" where
  "continues c net slp k =
     (int k < retries c \<and> retryable (net k) \<and> delay_passes (backoff_factor c) slp k)"

fun retry_trace :: "pynum \<Rightarrow> nat \<Rightarrow> event list" where
  "retry_trace b 0 = []"
| "retry_trace b (Suc k) = retry_trace b k @ Attempt k # delay_events b k"

section \<open>Tool contracts, the dispatcher and the catalog (mcp/tooling.py)\<close>

text \<open>
  A pydantic model class is represented by its \<open>model_validate\<close>: it returns the
  fields of the validated instance or raises (pydantic raises \<open>ValidationError\<close>).
  A handler runs in a world \<open>'w\<close> (the services it talks to), which it may change;
  it returns a value or raises.
\<close>

type_synonym model_class = "pyval \<Rightarrow> exn + pydict"

datatype handler_outcome = HReturned pyval | HRaised exn

record 'w tool_spec =
  name :: string
  description :: string
  input_model :: model_class
  output_model :: model_class
  handler :: "pyval \<Rightarrow> pydict option \<Rightarrow> 'w \<Rightarrow> handler_outcome \<times> 'w"

text \<open>\<open>ToolInvocationRequest\<close> and \<open>ToolInvocationResponse\<close> (schemas/base.py).\<close>

record invocation_request =
  tool :: string
  input :: pydict
  ctx :: "pydict option"

record invocation_response =
  ok :: bool
  output' :: pydict
  error :: "string option"

text \<open>
  The state a call runs in: the handlers' world, and the log of what the dispatcher has
  done so far, written at the point where it does it: a validation against a tool's
  input model, a call of a tool's handler (validated payload, context), a validation
  against a tool's output model.
\<close>

datatype step =
    InputValidation string pyval
  | HandlerCall string pyval "pydict option"
  | OutputValidation string pyval

record 'w run =
  world :: 'w
  log :: "step list"

fun is_handler_call :: "step \<Rightarrow> bool" where
  "is_handler_call (HandlerCall nm payload c) = True"
| "is_handler_call s = False"

text \<open>
  What \<open>model_dump()\<close> gives. \<open>dump_value\<close> is pydantic's dump of a value:
  model instances become plain dicts, a root model its dumped root, and lists and dicts
  are dumped element by element. \<open>model_dump v\<close> is the method call on any object
  that has the attribute.
\<close>

fun is_dict :: "pyval \<Rightarrow> bool" where
  "is_dict (PyDict d) = True"
| "is_dict v = False"

fun is_base_model :: "pyval \<Rightarrow> bool" where
  "is_base_model (PyModel fs) = True"
| "is_base_model (PyRootModel v) = True"
| "is_base_model v = False"

fun has_model_dump :: "pyval \<Rightarrow> bool" where
  "has_model_dump (PyModel fs) = True"
| "has_model_dump (PyRootModel v) = True"
| "has_model_dump (PyDumpable v) = True"
| "has_model_dump v = False"

fun dump_value :: "pyval \<Rightarrow> pyval" where
  "dump_value (PyModel fs) = PyDict (map (\<lambda>kv. (fst kv, dump_value (snd kv))) fs)"
| "dump_value (PyRootModel v) = dump_value v"
| "dump_value (PyList xs) = PyList (map dump_value xs)"
| "dump_value (PyDict d) = PyDict (map (\<lambda>kv. (fst kv, dump_value (snd kv))) d)"
| "dump_value v = v"

fun model_dump :: "pyval \<Rightarrow> pyval" where
  "model_dump (PyDumpable v) = v"
| "model_dump v = dump_value v"

text \<open>
  The constructor of \<open>ToolInvocationResponse\<close>: pydantic accepts only a dict for
  \<open>output\<close>.
\<close>

definition ToolInvocationResponse :: "bool \<Rightarrow> pyval \<Rightarrow> string option \<Rightarrow> exn + invocation_response" where
  "ToolInvocationResponse okv out err =
     (case out of
        PyDict d \<Rightarrow> Inr \<lparr> ok = okv, output' = d, error = err \<rparr>
      | _ \<Rightarrow> Inl (ValidationError ''output: a dictionary is required''))"

text \<open>\<open>ToolSpec.invoke\<close>. Validation stands before the \<open>try\<close>, so its failure propagates.\<close>

definition ToolSpec_invoke ::
  "'w tool_spec \<Rightarrow> invocation_request \<Rightarrow> 'w run \<Rightarrow> (exn + invocation_response) \<times> 'w run" where
  "ToolSpec_invoke spec req st =
     (let arg = PyDict (if input req \<noteq> [] then input req else []);
          st1 = st \<lparr> log := log st @ [InputValidation (name spec) arg] \<rparr>
      in case input_model spec arg of
           Inl e \<Rightarrow> (Inl e, st1)
         | Inr payload \<Rightarrow>
             (case handler spec (PyModel payload) (ctx req) (world st1) of
                (res, w') \<Rightarrow>
                  (let st2 = \<lparr> world = w',
                                  log = log st1 @ [HandlerCall (name spec) (PyModel payload) (ctx req)] \<rparr>
                   in case res of
                        HRaised (ToolExecutionError m) \<Rightarrow>
                          (ToolInvocationResponse False (PyDict []) (Some m), st2)
                      | HRaised e \<Rightarrow> (Inl (ToolExecutionError (str_exn e)), st2)
                      | HReturned raw \<Rightarrow>
                          if is_base_model raw then
                            (ToolInvocationResponse True (model_dump raw) None, st2)
                          else
                            (let st3 = st2 \<lparr> log := log st2 @ [OutputValidation (name spec) raw] \<rparr>
                             in case output_model spec raw of
                                  Inl e \<Rightarrow> (Inl e, st3)
                                | Inr d \<Rightarrow>
                                    (ToolInvocationResponse True (model_dump (PyModel d)) None, st3)))))"

text \<open>
  \<open>_extract_invocation_payload\<close>. \<open>args\<close> is the positional tuple and
  \<open>kwargs\<close> the keyword dictionary; Python's \<open>None\<close> is \<open>PyNone\<close>.
  The built-in \<open>dict(x)\<close> of the last step is a parameter: \<open>py_dict x\<close> is
  the mapping it builds, or \<open>None\<close> when it raises.
\<close>

definition has_key :: "pydict \<Rightarrow> string \<Rightarrow> bool" where
  "has_key d k = (map_of d k \<noteq> None)"

definition dict_get :: "pydict \<Rightarrow> string \<Rightarrow> pyval" where
  "dict_get d k = (case map_of d k of None \<Rightarrow> PyNone | Some v \<Rightarrow> v)"

definition kw_arguments :: "pydict \<Rightarrow> pyval" where
  "kw_arguments kwargs =
     (if has_key kwargs ''arguments'' then dict_get kwargs ''arguments''
      else if has_key kwargs ''input'' then dict_get kwargs ''input''
      else if has_key kwargs ''params'' then dict_get kwargs ''params''
      else PyNone)"

definition kw_context :: "pydict \<Rightarrow> pyval" where
  "kw_context kwargs = (if has_key kwargs ''context'' then dict_get kwargs ''context'' else PyNone)"

fun positional :: "pyval list \<Rightarrow> pyval \<Rightarrow> pyval \<Rightarrow> pyval \<times> pyval" where
  "positional [] arguments context = (arguments, context)"
| "positional [a0] arguments context =
     (if arguments = PyNone then (if is_dict a0 then (a0, context) else (arguments, a0))
      else (arguments, context))"
| "positional (a0 # a1 # rest) arguments context =
     (if arguments = PyNone then
        (if is_dict a0 then (a0, a1)
         else if is_dict a1 then (a1, a0)
         else if has_model_dump a1 then (model_dump a1, a0)
         else (a1, a0))
      else (arguments, context))"

definition as_mapping :: "(pyval \<Rightarrow> pydict option) \<Rightarrow> pyval \<Rightarrow> pyval" where
  "as_mapping py_dict arguments =
     (if \<not> is_dict arguments \<and> has_model_dump arguments then model_dump arguments
      else if \<not> is_dict arguments then
        (case py_dict arguments of
           Some d \<Rightarrow> PyDict d
         | None \<Rightarrow> PyDict [(''value'', arguments)])
      else arguments)"

definition extract_invocation_payload ::
  "(pyval \<Rightarrow> pydict option) \<Rightarrow> pyval list \<Rightarrow> pydict \<Rightarrow> pyval \<times> pyval" where
  "extract_invocation_payload py_dict args kwargs =
     (case positional args (kw_arguments kwargs) (kw_context kwargs) of
        (arguments, context) \<Rightarrow>
          (as_mapping py_dict (if arguments = PyNone then PyDict [] else arguments), context))"

text \<open>
  \<open>mcp_handler\<close>, the function \<open>bind_to_server\<close> hands to the host: normalise
  the call shape, validate, call the handler, dump the result.
\<close>

definition mcp_handler ::
  "(pyval \<Rightarrow> pydict option) \<Rightarrow> 'w tool_spec \<Rightarrow> pyval list \<Rightarrow> pydict \<Rightarrow> 'w run
     \<Rightarrow> (exn + pyval) \<times> 'w run" where
  "mcp_handler py_dict spec args kwargs st =
     (case extract_invocation_payload py_dict args kwargs of
        (arguments, context) \<Rightarrow>
          (let st1 = st \<lparr> log := log st @ [InputValidation (name spec) arguments] \<rparr>
           in case input_model spec arguments of
                Inl e \<Rightarrow> (Inl e, st1)
              | Inr payload \<Rightarrow>
                  (let context_payload = (case context of PyDict d \<Rightarrow> Some d | _ \<Rightarrow> None) in
                   case handler spec (PyModel payload) context_payload (world st1) of
                     (res, w') \<Rightarrow>
                       (let st2 = \<lparr> world = w',
                                       log = log st1 @ [HandlerCall (name spec) (PyModel payload) context_payload] \<rparr>
                        in case res of
                             HRaised e \<Rightarrow> (Inl e, st2)
                           | HReturned raw \<Rightarrow>
                               if is_base_model raw then (Inr (model_dump raw), st2)
                               else
                                 (let st3 = st2 \<lparr> log := log st2 @ [OutputValidation (name spec) raw] \<rparr>
                                  in case output_model spec raw of
                                       Inl e \<Rightarrow> (Inl e, st3)
                                     | Inr d \<Rightarrow> (Inr (model_dump (PyModel d)), st3))))))"

text \<open>
  \<open>ToolCatalog\<close>: a Python dict from tool name to \<open>ToolSpec\<close>, in insertion order.
\<close>

record 'w tool_catalog =
  tools :: "(string \<times> 'w tool_spec) list"

definition ToolCatalog_register ::
  "'w tool_spec \<Rightarrow> 'w tool_catalog \<Rightarrow> (exn + unit) \<times> 'w tool_catalog" where
  "ToolCatalog_register spec cat =
     (if map_of (tools cat) (name spec) \<noteq> None then
        (Inl (ValueError (''Tool already registered: '' @ name spec)), cat)
      else (Inr (), cat \<lparr> tools := tools cat @ [(name spec, spec)] \<rparr>))"

definition ToolCatalog_get :: "'w tool_catalog \<Rightarrow> string \<Rightarrow> 'w tool_spec option" where
  "ToolCatalog_get cat nm = map_of (tools cat) nm"

definition ToolCatalog_list :: "'w tool_catalog \<Rightarrow> 'w tool_spec list" where
  "ToolCatalog_list cat = map snd (tools cat)"

section \<open>The server's dispatcher (server/mcp_server.py)\<close>

text \<open>\<open>AIHubMCPServer.invoke\<close>, on the server's catalog.\<close>

definition AIHubMCPServer_invoke ::
  "'w tool_catalog \<Rightarrow> invocation_request \<Rightarrow> 'w run \<Rightarrow> (exn + invocation_response) \<times> 'w run" where
  "AIHubMCPServer_invoke cat req st =
     (case ToolCatalog_get cat (tool req) of
        None \<Rightarrow> (Inl (ToolExecutionError (''Unknown tool: '' @ tool req)), st)
      | Some spec \<Rightarrow> ToolSpec_invoke spec req st)"

section \<open>The GitHub issues adapter (integrations/github.py)\<close>

text \<open>
  The Python operations \<open>list_issues\<close> applies to the parsed response, with the
  exception each raises on a value of the wrong type (the messages are indicative).
\<close>

fun type_name :: "json \<Rightarrow> string" where
  "type_name JNull = ''NoneType''"
| "type_name (JBool b) = ''bool''"
| "type_name (JInt i) = ''int''"
| "type_name (JFloat q) = ''float''"
| "type_name (JStr s) = ''str''"
| "type_name (JList xs) = ''list''"
| "type_name (JDict d) = ''dict''"

fun truthy :: "json \<Rightarrow> bool" where
  "truthy JNull = False"
| "truthy (JBool b) = b"
| "truthy (JInt i) = (i \<noteq> 0)"
| "truthy (JFloat q) = (q \<noteq> 0)"
| "truthy (JStr s) = (s \<noteq> [])"
| "truthy (JList xs) = (xs \<noteq> [])"
| "truthy (JDict d) = (d \<noteq> [])"

fun str_contains :: "string \<Rightarrow> string \<Rightarrow> bool" where
  "str_contains sub [] = (sub = [])"
| "str_contains sub (c # cs) = (take (length sub) (c # cs) = sub \<or> str_contains sub cs)"

text \<open>\<open>k in v\<close> for a string \<open>k\<close>.\<close>

fun j_in :: "string \<Rightarrow> json \<Rightarrow> exn + bool" where
  "j_in k (JDict d) = Inr (map_of d k \<noteq> None)"
| "j_in k (JList xs) = Inr (List.member xs (JStr k))"
| "j_in k (JStr s) = Inr (str_contains k s)"
| "j_in k v = Inl (TypeError (''argument of type '' @ type_name v @ '' is not iterable''))"

text \<open>\<open>v.get(k, dflt)\<close>; only a dict has the method.\<close>

fun j_get :: "json \<Rightarrow> string \<Rightarrow> json \<Rightarrow> exn + json" where
  "j_get (JDict d) k dflt = Inr (case map_of d k of None \<Rightarrow> dflt | Some x \<Rightarrow> x)"
| "j_get v k dflt = Inl (AttributeError (type_name v @ '' object has no attribute get''))"

text \<open>Iteration (\<open>for x in v\<close>): the elements of a list, the keys of a dict, the characters of a string.\<close>

fun j_iter :: "json \<Rightarrow> exn + json list" where
  "j_iter (JList xs) = Inr xs"
| "j_iter (JDict d) = Inr (map (\<lambda>kv. JStr (fst kv)) d)"
| "j_iter (JStr s) = Inr (map (\<lambda>c. JStr [c]) s)"
| "j_iter v = Inl (TypeError (type_name v @ '' object is not iterable''))"

text \<open>The slice \<open>v[:n]\<close>.\<close>

fun j_slice_to :: "nat \<Rightarrow> json \<Rightarrow> exn + json" where
  "j_slice_to n (JStr s) = Inr (JStr (take n s))"
| "j_slice_to n (JList xs) = Inr (JList (take n xs))"
| "j_slice_to n v = Inl (TypeError (type_name v @ '' object is not subscriptable''))"

definition ebind :: "exn + 'a \<Rightarrow> ('a \<Rightarrow> exn + 'b) \<Rightarrow> exn + 'b" where
  "ebind m f = (case m of Inl e \<Rightarrow> Inl e | Inr x \<Rightarrow> f x)"

text \<open>A list comprehension \<open>[f(x) for x in xs]\<close>: the first exception ends it.\<close>

fun emap :: "('a \<Rightarrow> exn + 'b) \<Rightarrow> 'a list \<Rightarrow> exn + 'b list" where
  "emap f [] = Inr []"
| "emap f (x # xs) =
     (case f x of
        Inl e \<Rightarrow> Inl e
      | Inr y \<Rightarrow> (case emap f xs of Inl e \<Rightarrow> Inl e | Inr ys \<Rightarrow> Inr (y # ys)))"

text \<open>The \<open>body\<close> expression \<open>(issue.get("body", "") or "")[:500]\<close>.\<close>

definition issue_body :: "json \<Rightarrow> exn + json" where
  "issue_body issue =
     ebind (j_get issue ''body'' (JStr [])) (\<lambda>b. j_slice_to 500 (if truthy b then b else JStr []))"

definition names_of :: "json \<Rightarrow> string \<Rightarrow> string \<Rightarrow> exn + json" where
  "names_of issue field key =
     ebind (j_get issue field (JList [])) (\<lambda>vs.
     ebind (j_iter vs) (\<lambda>items.
     ebind (emap (\<lambda>item. j_get item key JNull) items) (\<lambda>ns. Inr (JList ns))))"

text \<open>The dictionary appended for one issue; its entries are evaluated in order.\<close>

definition issue_entry :: "json \<Rightarrow> exn + json" where
  "issue_entry issue =
     ebind (j_get issue ''number'' JNull) (\<lambda>number.
     ebind (j_get issue ''title'' JNull) (\<lambda>title.
     ebind (j_get issue ''state'' JNull) (\<lambda>state.
     ebind (j_get issue ''html_url'' JNull) (\<lambda>url.
     ebind (issue_body issue) (\<lambda>body.
     ebind (j_get issue ''created_at'' JNull) (\<lambda>created_at.
     ebind (j_get issue ''updated_at'' JNull) (\<lambda>updated_at.
     ebind (names_of issue ''labels'' ''name'') (\<lambda>labels.
     ebind (j_get issue ''user'' (JDict [])) (\<lambda>user.
     ebind (j_get user ''login'' JNull) (\<lambda>login.
     ebind (names_of issue ''assignees'' ''login'') (\<lambda>assignees.
       Inr (JDict
         [(''number'', number), (''title'', title), (''state'', state), (''url'', url),
          (''body'', body), (''created_at'', created_at), (''updated_at'', updated_at),
          (''labels'', labels), (''user'', login), (''assignees'', assignees)]))))))))))))"

text \<open>The \<open>for issue in issues_response\<close> loop; \<open>issues\<close> is the list built so far.\<close>

fun collect_issues :: "json list \<Rightarrow> json list \<Rightarrow> exn + json list" where
  "collect_issues [] issues = Inr issues"
| "collect_issues (issue # rest) issues =
     (case j_in ''pull_request'' issue of
        Inl e \<Rightarrow> Inl e
      | Inr is_pr \<Rightarrow>
          if is_pr then collect_issues rest issues
          else (case issue_entry issue of
                  Inl e \<Rightarrow> Inl e
                | Inr entry \<Rightarrow> collect_issues rest (issues @ [entry])))"

fun join :: "string \<Rightarrow> string list \<Rightarrow> string" where
  "join sep [] = []"
| "join sep [x] = x"
| "join sep (x # y # ys) = x @ sep @ join sep (y # ys)"

definition issues_params :: "string \<Rightarrow> string list option \<Rightarrow> int \<Rightarrow> int \<Rightarrow> (string \<times> json) list" where
  "issues_params state labels page per_page =
     [(''state'', JStr state), (''page'', JInt page), (''per_page'', JInt (min per_page 100))]
     @ (case labels of
          None \<Rightarrow> []
        | Some ls \<Rightarrow> if ls \<noteq> [] then [(''labels'', JStr (join '','' ls))] else [])"

text \<open>\<open>GitHubIssuesAdapter.list_issues\<close>, on the adapter's client.\<close>

definition list_issues ::
  "http_env \<Rightarrow> http_client \<Rightarrow> string \<Rightarrow> string \<Rightarrow> string \<Rightarrow> string list option \<Rightarrow> int \<Rightarrow> int
     \<Rightarrow> (exn + json list) option \<times> event list" where
  "list_issues env client owner repo state labels page per_page =
     (case request env client ''GET'' (''/repos/'' @ owner @ ''/'' @ repo @ ''/issues'')
             [(''params'', JDict (issues_params state labels page per_page))] of
        (None, evs) \<Rightarrow> (None, evs)
      | (Some (Inl e), evs) \<Rightarrow> (Some (Inl e), evs)
      | (Some (Inr issues_response), evs) \<Rightarrow>
          (Some (ebind (j_iter issues_response) (\<lambda>items. collect_issues items [])), evs))"

text \<open>
  Two notions the statement about \<open>list_issues\<close> is written with: an item is marked
  as a pull request when \<open>"pull_request" in item\<close> holds, and \<open>py_len_le n v\<close>
  says that \<open>v\<close> is a string of at most \<open>n\<close> characters (or, for an upstream
  body that is an array, a list of at most \<open>n\<close> elements).
\<close>

definition is_pull_request :: "json \<Rightarrow> bool" where
  "is_pull_request item = (j_in ''pull_request'' item = Inr True)"

fun py_len_le :: "nat \<Rightarrow> json \<Rightarrow> bool" where
  "py_len_le n (JStr s) = (length s \<le> n)"
| "py_len_le n (JList xs) = (length xs \<le> n)"
| "py_len_le n v = False"

section \<open>Example worlds\<close>

text \<open>
  Concrete clients, networks and tools, on which the theorems below are run.
  \<open>finite_sleep\<close> resumes after every finite delay and never after an infinite one
  or a NaN.
\<close>

definition finite_sleep :: "nat \<Rightarrow> pynum \<Rightarrow> sleep_outcome" where
  "finite_sleep n d = (case d of PInf \<Rightarrow> NeverResumes | PNaN \<Rightarrow> NeverResumes | _ \<Rightarrow> Resumed)"

definition E_down :: http_env where
  "E_down = \<lparr> httpx_installed = True,
              session_request = (\<lambda>c m u kw n. Raised (TimeoutException ''timed out'')),
              asyncio_sleep = finite_sleep \<rparr>"

definition E_late :: http_env where
  "E_late = \<lparr> httpx_installed = True,
              session_request = (\<lambda>c m u kw n.
                 if n < 1025 then Raised (TimeoutException ''timed out'') else Returned (JDict [])),
              asyncio_sleep = finite_sleep \<rparr>"

definition C_two :: http_client where
  "C_two = ResilientAsyncHTTPClient None None None 2 (PFloat (1/2))"

definition C_backoff :: "pynum \<Rightarrow> http_client" where
  "C_backoff b = ResilientAsyncHTTPClient None None None 3 b"

definition C_overflow :: http_client where
  "C_overflow = ResilientAsyncHTTPClient None None None 1025 (PFloat 0)"

definition C_huge :: http_client where
  "C_huge = ResilientAsyncHTTPClient None None None 2 (PFloat (2 ^ 1023))"

definition E_rejecting :: http_env where
  "E_rejecting = \<lparr> httpx_installed = True,
                   session_request = (\<lambda>c m u kw n.
                      if n = 0 then Raised (RequestError ''connection reset'')
                      else Raised (HTTPStatusError 503 ''Service Unavailable'' ''overloaded''
                                     ''Server error 503'')),
                   asyncio_sleep = finite_sleep \<rparr>"


definition echo_input :: model_class where
  "echo_input v =
     (case v of
        PyDict d \<Rightarrow>
          (case map_of d ''text'' of
             Some (PyStr s) \<Rightarrow> Inr [(''text'', PyStr s)]
           | _ \<Rightarrow> Inl (ValidationError ''text: a string is required''))
      | _ \<Rightarrow> Inl (ValidationError ''a dictionary is required''))"

definition echo_output :: model_class where
  "echo_output v =
     (case v of
        PyDict d \<Rightarrow> Inr d
      | _ \<Rightarrow> Inl (ValidationError ''a dictionary is required''))"

text \<open>A tool whose handler counts its calls in the world and rejects the text \<open>boom\<close>.\<close>

definition T_echo :: "nat tool_spec" where
  "T_echo =
     \<lparr> name = ''echo'',
       description = ''Echo the text'',
       input_model = echo_input,
       output_model = echo_output,
       handler = (\<lambda>payload c w.
         (if payload = PyModel [(''text'', PyStr ''boom'')]
          then HRaised (ToolExecutionError ''X'')
          else HReturned (PyDict [(''echo'', payload)]), Suc w)) \<rparr>"

definition Cat_echo :: "nat tool_catalog" where
  "Cat_echo = \<lparr> tools = [(''echo'', T_echo)] \<rparr>"

definition S0 :: "nat run" where
  "S0 = \<lparr> world = 0, log = [] \<rparr>"

definition R_boom :: invocation_request where
  "R_boom = \<lparr> tool = ''echo'', input = [(''text'', PyStr ''boom'')], ctx = None \<rparr>"

definition R_bad :: invocation_request where
  "R_bad = \<lparr> tool = ''echo'', input = [(''text'', PyInt 3)], ctx = None \<rparr>"

definition R_unknown :: invocation_request where
  "R_unknown = \<lparr> tool = ''nope'', input = [(''text'', PyStr ''hi'')], ctx = None \<rparr>"

text \<open>
  Keyword arguments whose \<open>arguments\<close> entry is an instance of a pydantic root model
  over a list, and the same list passed as it is.
\<close>

definition K_root :: pydict where
  "K_root = [(''arguments'', PyRootModel (PyList [PyInt 1, PyInt 2]))]"

definition K_list :: pydict where
  "K_list = [(''arguments'', PyList [PyInt 1, PyInt 2])]"

definition upstream_issues :: json where
  "upstream_issues = JList
     [JDict [(''number'', JInt 1), (''pull_request'', JDict [(''url'', JStr ''u'')]),
             (''body'', JStr ''a pull request'')],
      JDict [(''number'', JInt 2), (''body'', JStr (replicate 600 CHR ''a'')),
             (''labels'', JList [JDict [(''name'', JStr ''bug'')]]),
             (''user'', JDict [(''login'', JStr ''ann'')])],
      JDict [(''number'', JInt 3), (''body'', JNull)]]"

definition E_issues :: http_env where
  "E_issues = \<lparr> httpx_installed = True,
                session_request = (\<lambda>c m u kw n. Returned upstream_issues),
                asyncio_sleep = finite_sleep \<rparr>"

definition shaped_issues :: "json list" where
  "shaped_issues =
     [JDict [(''number'', JInt 2), (''title'', JNull), (''state'', JNull), (''url'', JNull),
             (''body'', JStr (replicate 500 CHR ''a'')), (''created_at'', JNull),
             (''updated_at'', JNull), (''labels'', JList [JStr ''bug'']),
             (''user'', JStr ''ann''), (''assignees'', JList [])],
      JDict [(''number'', JInt 3), (''title'', JNull), (''state'', JNull), (''url'', JNull),
             (''body'', JStr []), (''created_at'', JNull),
             (''updated_at'', JNull), (''labels'', JList []),
             (''user'', JNull), (''assignees'', JList [])]]"

section \<open>The retry loop, run by run\<close>

lemma n_attempts_append [simp]: "n_attempts (xs @ ys) = n_attempts xs + n_attempts ys"
  by (simp add: n_attempts_def)

lemma n_attempts_simps [simp]:
  "n_attempts [] = 0"
  "n_attempts (Attempt k # evs) = Suc (n_attempts evs)"
  "n_attempts (Sleep d # evs) = n_attempts evs"
  by (simp_all add: n_attempts_def)

lemma n_attempts_delay_events [simp]: "n_attempts (delay_events b k) = 0"
  by (simp add: delay_events_def split: sum.splits)

lemma n_attempts_retry_trace [simp]: "n_attempts (retry_trace b k) = k"
  by (induction k) auto

lemma is_transient_not_status: "is_transient e \<Longrightarrow> \<not> is_status_error e"
  by (cases e) auto

text \<open>One pass through the loop body, by the branch taken.\<close>

lemma loop_returned:
  "attempt \<le> retries c \<Longrightarrow> net (n_attempts evs) = Returned body \<Longrightarrow>
   request_loop c net slp attempt le evs = (Some (Inr body), evs @ [Attempt (n_attempts evs)])"
  by (simp add: request_loop.simps)

lemma loop_status:
  "attempt \<le> retries c \<Longrightarrow> net (n_attempts evs) = Raised e \<Longrightarrow> is_status_error e \<Longrightarrow>
   request_loop c net slp attempt le evs =
     (Some (Inl (ToolExecutionError (status_error_message e))), evs @ [Attempt (n_attempts evs)])"
  by (simp add: request_loop.simps)

lemma loop_unexpected:
  "attempt \<le> retries c \<Longrightarrow> net (n_attempts evs) = Raised e \<Longrightarrow> \<not> is_status_error e \<Longrightarrow>
   \<not> is_transient e \<Longrightarrow>
   request_loop c net slp attempt le evs =
     (Some (Inl (ToolExecutionError (''Unexpected HTTP error: '' @ str_httpx e))),
      evs @ [Attempt (n_attempts evs)])"
  by (simp add: request_loop.simps)

lemma loop_exhausted:
  "attempt = retries c \<Longrightarrow> net (n_attempts evs) = Raised e \<Longrightarrow> is_transient e \<Longrightarrow>
   request_loop c net slp attempt le evs =
     (Some (Inl (exhausted_error c (Some e))), evs @ [Attempt (n_attempts evs)])"
  by (simp add: request_loop.simps is_transient_not_status)

lemma loop_overflow:
  "attempt < retries c \<Longrightarrow> net (n_attempts evs) = Raised e \<Longrightarrow> is_transient e \<Longrightarrow>
   mul_pow2 (backoff_factor c) (nat attempt) = Inl err \<Longrightarrow>
   request_loop c net slp attempt le evs = (Some (Inl err), evs @ [Attempt (n_attempts evs)])"
  by (subst request_loop.simps) (simp add: is_transient_not_status Let_def)

lemma loop_never_resumes:
  "attempt < retries c \<Longrightarrow> net (n_attempts evs) = Raised e \<Longrightarrow> is_transient e \<Longrightarrow>
   mul_pow2 (backoff_factor c) (nat attempt) = Inr d \<Longrightarrow> num_truthy d \<Longrightarrow>
   slp (Suc (n_attempts evs)) d = NeverResumes \<Longrightarrow>
   request_loop c net slp attempt le evs = (None, evs @ [Attempt (n_attempts evs), Sleep d])"
  by (subst request_loop.simps) (simp add: is_transient_not_status Let_def)

lemma loop_sleep_raised:
  "attempt < retries c \<Longrightarrow> net (n_attempts evs) = Raised e \<Longrightarrow> is_transient e \<Longrightarrow>
   mul_pow2 (backoff_factor c) (nat attempt) = Inr d \<Longrightarrow> num_truthy d \<Longrightarrow>
   slp (Suc (n_attempts evs)) d = SleepRaised err \<Longrightarrow>
   request_loop c net slp attempt le evs = (Some (Inl err), evs @ [Attempt (n_attempts evs), Sleep d])"
  by (subst request_loop.simps) (simp add: is_transient_not_status Let_def)

lemma loop_continue:
  assumes "attempt = int (n_attempts evs)" and "continues c net slp (n_attempts evs)"
  shows "\<exists>e. net (n_attempts evs) = Raised e \<and> is_transient e \<and>
           request_loop c net slp attempt le evs =
             request_loop c net slp (attempt + 1) (Some e)
               (evs @ Attempt (n_attempts evs) # delay_events (backoff_factor c) (n_attempts evs))"
proof -
  let ?n = "n_attempts evs"
  from assms(2) have lt: "attempt < retries c" and r: "retryable (net ?n)"
    and p: "delay_passes (backoff_factor c) slp ?n"
    by (simp_all add: continues_def assms(1))
  from r obtain e where e: "net ?n = Raised e" "is_transient e"
    by (cases "net ?n") auto
  have nat_att: "nat attempt = ?n" using assms(1) by simp
  from p obtain d where d: "mul_pow2 (backoff_factor c) ?n = Inr d"
    and res: "num_truthy d \<Longrightarrow> slp (Suc ?n) d = Resumed"
    by (cases "mul_pow2 (backoff_factor c) ?n") (auto simp: delay_passes_def split: if_splits)
  have "request_loop c net slp attempt le evs =
          request_loop c net slp (attempt + 1) (Some e)
            (evs @ Attempt ?n # delay_events (backoff_factor c) ?n)"
    using lt e d res
    by (subst request_loop.simps)
      (simp add: is_transient_not_status Let_def nat_att delay_events_def)
  then show ?thesis using e by blast
qed

lemma loop_run:
  assumes "\<forall>i<k. continues c net slp i"
  shows "\<exists>le. request_loop c net slp 0 None [] =
           request_loop c net slp (int k) le (retry_trace (backoff_factor c) k)"
  using assms
proof (induction k)
  case 0
  then show ?case by auto
next
  case (Suc k)
  then obtain le where le: "request_loop c net slp 0 None [] =
           request_loop c net slp (int k) le (retry_trace (backoff_factor c) k)"
    by auto
  have "continues c net slp (n_attempts (retry_trace (backoff_factor c) k))"
    using Suc.prems by simp
  from loop_continue[OF _ this, of "int k" le]
  obtain e where "request_loop c net slp (int k) le (retry_trace (backoff_factor c) k) =
             request_loop c net slp (int k + 1) (Some e)
               (retry_trace (backoff_factor c) k @ Attempt k # delay_events (backoff_factor c) k)"
    by auto
  then show ?case using le by (intro exI[of _ "Some e"]) (simp add: add.commute)
qed

lemma stops_somewhere:
  "\<exists>k. (\<forall>i<k. continues c net slp i) \<and> \<not> continues c net slp k"
proof -
  have "\<not> continues c net slp (nat (retries c))"
    by (simp add: continues_def)
  then have ex: "\<exists>k. \<not> continues c net slp k" by blast
  define k where "k = (LEAST k. \<not> continues c net slp k)"
  have "\<not> continues c net slp k" unfolding k_def using ex by (rule LeastI_ex)
  moreover have "\<forall>i<k. continues c net slp i"
    unfolding k_def using not_less_Least by blast
  ultimately show ?thesis by blast
qed

lemma attempt_in_retry_trace [simp]: "Attempt j \<in> set (retry_trace b k) \<longleftrightarrow> j < k"
  by (induction k) (auto simp: delay_events_def split: sum.splits)

lemma sleep_in_retry_trace:
  "Sleep d \<in> set (retry_trace b k) \<Longrightarrow> \<exists>j<k. mul_pow2 b j = Inr d \<and> num_truthy d"
  by (induction k) (auto simp: delay_events_def less_Suc_eq split: sum.splits if_splits)

lemma request_shape:
  assumes "httpx_installed env" and "0 \<le> retries c"
  obtains
    (returned) k body where
      "\<forall>i<k. continues c (session_request env c m u kw) (asyncio_sleep env) i"
      "int k \<le> retries c"
      "session_request env c m u kw k = Returned body"
      "request env c m u kw = (Some (Inr body), retry_trace (backoff_factor c) k @ [Attempt k])"
  | (status) k e where
      "\<forall>i<k. continues c (session_request env c m u kw) (asyncio_sleep env) i"
      "int k \<le> retries c"
      "session_request env c m u kw k = Raised e" "is_status_error e"
      "request env c m u kw =
         (Some (Inl (ToolExecutionError (status_error_message e))),
          retry_trace (backoff_factor c) k @ [Attempt k])"
  | (unexpected) k e where
      "\<forall>i<k. continues c (session_request env c m u kw) (asyncio_sleep env) i"
      "int k \<le> retries c"
      "session_request env c m u kw k = Raised e" "\<not> is_status_error e" "\<not> is_transient e"
      "request env c m u kw =
         (Some (Inl (ToolExecutionError (''Unexpected HTTP error: '' @ str_httpx e))),
          retry_trace (backoff_factor c) k @ [Attempt k])"
  | (exhausted) k e where
      "\<forall>i<k. continues c (session_request env c m u kw) (asyncio_sleep env) i"
      "int k = retries c"
      "session_request env c m u kw k = Raised e" "is_transient e"
      "request env c m u kw =
         (Some (Inl (exhausted_error c (Some e))), retry_trace (backoff_factor c) k @ [Attempt k])"
  | (overflow) k e err where
      "\<forall>i<k. continues c (session_request env c m u kw) (asyncio_sleep env) i"
      "int k < retries c"
      "session_request env c m u kw k = Raised e" "is_transient e"
      "mul_pow2 (backoff_factor c) k = Inl err"
      "request env c m u kw = (Some (Inl err), retry_trace (backoff_factor c) k @ [Attempt k])"
  | (never_resumes) k e d where
      "\<forall>i<k. continues c (session_request env c m u kw) (asyncio_sleep env) i"
      "int k < retries c"
      "session_request env c m u kw k = Raised e" "is_transient e"
      "mul_pow2 (backoff_factor c) k = Inr d" "num_truthy d"
      "asyncio_sleep env (Suc k) d = NeverResumes"
      "request env c m u kw = (None, retry_trace (backoff_factor c) k @ [Attempt k, Sleep d])"
  | (sleep_raised) k e d err where
      "\<forall>i<k. continues c (session_request env c m u kw) (asyncio_sleep env) i"
      "int k < retries c"
      "session_request env c m u kw k = Raised e" "is_transient e"
      "mul_pow2 (backoff_factor c) k = Inr d" "num_truthy d"
      "asyncio_sleep env (Suc k) d = SleepRaised err"
      "request env c m u kw = (Some (Inl err), retry_trace (backoff_factor c) k @ [Attempt k, Sleep d])"
proof -
  let ?net = "session_request env c m u kw"
  let ?slp = "asyncio_sleep env"
  let ?b = "backoff_factor c"
  obtain k where run: "\<forall>i<k. continues c ?net ?slp i" and stop: "\<not> continues c ?net ?slp k"
    using stops_somewhere by blast
  have kr: "int k \<le> retries c"
  proof (cases k)
    case 0
    then show ?thesis using assms(2) by simp
  next
    case (Suc j)
    then have "continues c ?net ?slp j" using run by simp
    then show ?thesis using Suc by (simp add: continues_def)
  qed
  obtain le where "request_loop c ?net ?slp 0 None [] =
      request_loop c ?net ?slp (int k) le (retry_trace ?b k)"
    using loop_run[OF run] by blast
  then have req: "request env c m u kw = request_loop c ?net ?slp (int k) le (retry_trace ?b k)"
    using assms(1) by (simp add: request_def)
  have n: "n_attempts (retry_trace ?b k) = k" by simp
  show ?thesis
  proof (cases "?net k")
    case (Returned body)
    have "request env c m u kw = (Some (Inr body), retry_trace ?b k @ [Attempt k])"
      unfolding req using loop_returned[of "int k" c ?net "retry_trace ?b k" body ?slp le, unfolded n] kr Returned
      by simp
    then show ?thesis using run kr Returned by (rule returned[rotated -1])
  next
    case (Raised e)
    show ?thesis
    proof (cases "is_status_error e")
      case True
      have "request env c m u kw =
          (Some (Inl (ToolExecutionError (status_error_message e))), retry_trace ?b k @ [Attempt k])"
        unfolding req using loop_status[of "int k" c ?net "retry_trace ?b k" e ?slp le, unfolded n] kr Raised True
        by simp
      then show ?thesis using run kr Raised True by (rule status[rotated -1])
    next
      case ns: False
      show ?thesis
      proof (cases "is_transient e")
        case False
        have "request env c m u kw =
            (Some (Inl (ToolExecutionError (''Unexpected HTTP error: '' @ str_httpx e))),
             retry_trace ?b k @ [Attempt k])"
          unfolding req
          using loop_unexpected[of "int k" c ?net "retry_trace ?b k" e ?slp le, unfolded n] kr Raised ns False
          by simp
        then show ?thesis using run kr Raised ns False by (rule unexpected[rotated -1])
      next
        case tr: True
        show ?thesis
        proof (cases "int k = retries c")
          case True
          have "request env c m u kw =
              (Some (Inl (exhausted_error c (Some e))), retry_trace ?b k @ [Attempt k])"
            unfolding req
            using loop_exhausted[of "int k" c ?net "retry_trace ?b k" e ?slp le, unfolded n] Raised tr True
            by simp
          then show ?thesis using run True Raised tr by (rule exhausted[rotated -1])
        next
          case False
          then have lt: "int k < retries c" using kr by simp
          then have np: "\<not> delay_passes ?b ?slp k"
            using stop Raised tr by (simp add: continues_def)
          show ?thesis
          proof (cases "mul_pow2 ?b k")
            case (Inl err)
            have "request env c m u kw = (Some (Inl err), retry_trace ?b k @ [Attempt k])"
              unfolding req
              using loop_overflow[of "int k" c ?net "retry_trace ?b k" e err ?slp le, unfolded n] lt Raised tr Inl
              by simp
            then show ?thesis using run lt Raised tr Inl by (rule overflow[rotated -1])
          next
            case (Inr d)
            then have d: "num_truthy d" "?slp (Suc k) d \<noteq> Resumed"
              using np by (auto simp: delay_passes_def split: if_splits)
            show ?thesis
            proof (cases "?slp (Suc k) d")
              case Resumed
              then show ?thesis using d by simp
            next
              case NeverResumes
              have "request env c m u kw = (None, retry_trace ?b k @ [Attempt k, Sleep d])"
                unfolding req
                using loop_never_resumes[of "int k" c ?net "retry_trace ?b k" e d ?slp le, unfolded n]
                  lt Raised tr Inr d(1) NeverResumes
                by simp
              then show ?thesis using run lt Raised tr Inr d(1) NeverResumes
                by (rule never_resumes[rotated -1])
            next
              case (SleepRaised err)
              have "request env c m u kw = (Some (Inl err), retry_trace ?b k @ [Attempt k, Sleep d])"
                unfolding req
                using loop_sleep_raised[of "int k" c ?net "retry_trace ?b k" e d ?slp err le, unfolded n]
                  lt Raised tr Inr d(1) SleepRaised
                by simp
              then show ?thesis using run lt Raised tr Inr d(1) SleepRaised
                by (rule sleep_raised[rotated -1])
            qed
          qed
        qed
      qed
    qed
  qed
qed

lemma request_no_attempt:
  assumes "\<not> (httpx_installed env \<and> 0 \<le> retries c)"
  shows "snd (request env c m u kw) = []"
    and "\<exists>msg. msg \<noteq> [] \<and> (fst (request env c m u kw) = Some (Inl (RuntimeError msg))
           \<or> fst (request env c m u kw) = Some (Inl (ToolExecutionError msg)))"
proof -
  have neg: "retries c < 0 \<Longrightarrow>
      request_loop c (session_request env c m u kw) (asyncio_sleep env) 0 None [] =
        (Some (Inl (exhausted_error c None)), [])"
    by (subst request_loop.simps) simp
  show "snd (request env c m u kw) = []"
    using assms neg by (cases "httpx_installed env") (simp_all add: request_def)
  show "\<exists>msg. msg \<noteq> [] \<and> (fst (request env c m u kw) = Some (Inl (RuntimeError msg))
           \<or> fst (request env c m u kw) = Some (Inl (ToolExecutionError msg)))"
    using assms neg
    by (cases "httpx_installed env") (simp_all add: request_def exhausted_error_def)
qed

lemma continues_retryable: "continues c net slp i \<Longrightarrow> \<exists>e. net i = Raised e \<and> is_transient e"
  by (cases "net i") (simp_all add: continues_def)

text \<open>What every call with httpx and non-negative retries looks like, in one statement.\<close>

lemma request_summary:
  assumes "httpx_installed env" and "0 \<le> retries c"
  shows "\<exists>j tail.
    (\<forall>i<j. continues c (session_request env c m u kw) (asyncio_sleep env) i)
    \<and> int j \<le> retries c
    \<and> snd (request env c m u kw) = retry_trace (backoff_factor c) j @ Attempt j # tail
    \<and> (tail = [] \<or> (\<exists>d. tail = [Sleep d] \<and> mul_pow2 (backoff_factor c) j = Inr d \<and> num_truthy d
          \<and> int j < retries c \<and> retryable (session_request env c m u kw j)))
    \<and> (\<forall>e. session_request env c m u kw j = Raised e \<and> is_status_error e \<longrightarrow>
          request env c m u kw =
            (Some (Inl (ToolExecutionError (status_error_message e))),
             retry_trace (backoff_factor c) j @ [Attempt j]))"
  using assms
proof (cases rule: request_shape[where m = m and u = u and kw = kw])
  case (returned k body)
  show ?thesis by (intro exI[of _ k] exI[of _ "[]"]) (use returned in simp)
next
  case (status k e)
  show ?thesis by (intro exI[of _ k] exI[of _ "[]"]) (use status in simp)
next
  case (unexpected k e)
  show ?thesis by (intro exI[of _ k] exI[of _ "[]"]) (use unexpected in simp)
next
  case (exhausted k e)
  show ?thesis
    by (intro exI[of _ k] exI[of _ "[]"]) (use exhausted is_transient_not_status in auto)
next
  case (overflow k e err)
  show ?thesis
    by (intro exI[of _ k] exI[of _ "[]"]) (use overflow is_transient_not_status in auto)
next
  case (never_resumes k e d)
  show ?thesis
    by (intro exI[of _ k] exI[of _ "[Sleep d]"]) (use never_resumes is_transient_not_status in auto)
next
  case (sleep_raised k e d err)
  show ?thesis
    by (intro exI[of _ k] exI[of _ "[Sleep d]"]) (use sleep_raised is_transient_not_status in auto)
qed



lemma request_all_fail:
  assumes "httpx_installed env" and "0 \<le> retries c"
    and "\<forall>i \<le> nat (retries c). retryable (session_request env c m u kw i)"
    and "\<forall>i < nat (retries c). delay_passes (backoff_factor c) (asyncio_sleep env) i"
  shows "\<exists>e. session_request env c m u kw (nat (retries c)) = Raised e \<and> is_transient e
    \<and> request env c m u kw =
        (Some (Inl (exhausted_error c (Some e))),
         retry_trace (backoff_factor c) (nat (retries c)) @ [Attempt (nat (retries c))])"
proof -
  let ?net = "session_request env c m u kw"
  let ?slp = "asyncio_sleep env"
  let ?k = "nat (retries c)"
  have "\<forall>i<?k. continues c ?net ?slp i"
    using assms(2,3,4) by (auto simp: continues_def)
  then obtain le where "request_loop c ?net ?slp 0 None [] =
      request_loop c ?net ?slp (int ?k) le (retry_trace (backoff_factor c) ?k)"
    using loop_run by blast
  then have req: "request env c m u kw =
      request_loop c ?net ?slp (int ?k) le (retry_trace (backoff_factor c) ?k)"
    using assms(1) by (simp add: request_def)
  from assms(3) obtain e where e: "?net ?k = Raised e" "is_transient e"
    by (cases "?net ?k") auto
  have "request_loop c ?net ?slp (int ?k) le (retry_trace (backoff_factor c) ?k) =
      (Some (Inl (exhausted_error c (Some e))),
       retry_trace (backoff_factor c) ?k @ [Attempt (n_attempts (retry_trace (backoff_factor c) ?k))])"
    by (rule loop_exhausted) (use assms(2) e in simp_all)
  then show ?thesis using req e by simp
qed

text \<open>The example worlds, run.\<close>

lemma retry_trace_no_delay:
  "(\<And>i. i < k \<Longrightarrow> delay_events b i = []) \<Longrightarrow> retry_trace b k = map Attempt [0..<k]"
  by (induction k) simp_all

lemma n_attempts_map_Attempt [simp]: "n_attempts (map Attempt ks) = length ks"
  by (induction ks) simp_all

lemma delay_events_float_zero: "delay_events (PFloat 0) k = []"
  by (simp add: delay_events_def float_result_def)

lemma overflow_run:
  assumes "httpx_installed env"
    and "\<And>n. n < 1025 \<Longrightarrow> session_request env C_overflow m u kw n = Raised (TimeoutException ''timed out'')"
    and "asyncio_sleep env = finite_sleep"
  shows "request env C_overflow m u kw = (Some (Inl int_too_large), map Attempt [0..<1025])"
proof -
  let ?net = "session_request env C_overflow m u kw"
  let ?slp = "asyncio_sleep env"
  have c: "retries C_overflow = 1025" "backoff_factor C_overflow = PFloat 0"
    by (simp_all add: C_overflow_def ResilientAsyncHTTPClient_def max_zero_def)
  have "\<forall>i<1024. continues C_overflow ?net ?slp i"
    by (simp add: continues_def c assms(2) delay_passes_def float_result_def)
  from loop_run[OF this] obtain le where run:
    "request_loop C_overflow ?net ?slp 0 None [] =
       request_loop C_overflow ?net ?slp (int 1024) le (retry_trace (backoff_factor C_overflow) 1024)"
    by blast
  have stop: "request_loop C_overflow ?net ?slp (int 1024) le (retry_trace (backoff_factor C_overflow) 1024) =
      (Some (Inl int_too_large),
       retry_trace (backoff_factor C_overflow) 1024
         @ [Attempt (n_attempts (retry_trace (backoff_factor C_overflow) 1024))])"
    by (rule loop_overflow[where e = "TimeoutException ''timed out''"])
      (simp_all add: c assms(2))
  have tr: "retry_trace (PFloat 0) 1024 = map Attempt [0..<1024]"
    by (rule retry_trace_no_delay) (rule delay_events_float_zero)
  have "[0..<1025] = [0..<1024] @ [1024]"
    using upt_Suc_append[of 0 1024] by simp
  then show ?thesis
    using run stop assms(1) by (simp add: request_def c tr)
qed

lemma huge_first_continues:
  "continues C_huge (session_request E_down C_huge m u kw) (asyncio_sleep E_down) 0"
  by (simp add: continues_def C_huge_def ResilientAsyncHTTPClient_def E_down_def
      delay_passes_def max_zero_def float_result_def finite_sleep_def)

lemma half_passes:
  assumes "i < 3"
  shows "delay_passes (PFloat (1/2)) finite_sleep i"
proof -
  from assms have "i = 0 \<or> i = 1 \<or> i = 2" by arith
  then show ?thesis
    by (elim disjE) (simp_all add: delay_passes_def finite_sleep_def float_result_def)
qed

lemma down_fails:
  assumes "retries c = int r" and "\<forall>i<r. delay_passes (backoff_factor c) finite_sleep i"
  shows "request E_down c m u kw =
     (Some (Inl (exhausted_error c (Some (TimeoutException ''timed out'')))),
      retry_trace (backoff_factor c) r @ [Attempt r])"
proof -
  have "\<exists>e. session_request E_down c m u kw (nat (retries c)) = Raised e \<and> is_transient e
    \<and> request E_down c m u kw =
        (Some (Inl (exhausted_error c (Some e))),
         retry_trace (backoff_factor c) (nat (retries c)) @ [Attempt (nat (retries c))])"
    by (rule request_all_fail) (use assms in \<open>simp_all add: E_down_def\<close>)
  then show ?thesis using assms(1) by (simp add: E_down_def)
qed

lemma rejecting_trace:
  "snd (request E_rejecting C_two ''GET'' ''/repos'' []) =
     [Attempt 0, Sleep (PFloat (1/2)), Attempt 1]"
proof -
  let ?net = "session_request E_rejecting C_two ''GET'' ''/repos'' []"
  let ?slp = "asyncio_sleep E_rejecting"
  let ?e = "HTTPStatusError 503 ''Service Unavailable'' ''overloaded'' ''Server error 503''"
  have c: "retries C_two = 2" "backoff_factor C_two = PFloat (1/2)"
    by (simp_all add: C_two_def ResilientAsyncHTTPClient_def max_zero_def)
  have "\<forall>i<1. continues C_two ?net ?slp i"
    by (simp add: continues_def c E_rejecting_def delay_passes_def float_result_def
        finite_sleep_def)
  from loop_run[OF this] obtain le where run:
    "request_loop C_two ?net ?slp 0 None [] =
       request_loop C_two ?net ?slp (int 1) le (retry_trace (backoff_factor C_two) 1)"
    by blast
  have stop: "request_loop C_two ?net ?slp (int 1) le (retry_trace (backoff_factor C_two) 1) =
      (Some (Inl (ToolExecutionError (status_error_message ?e))),
       retry_trace (backoff_factor C_two) 1
         @ [Attempt (n_attempts (retry_trace (backoff_factor C_two) 1))])"
    by (rule loop_status) (simp_all add: c E_rejecting_def)
  show ?thesis
    using run stop
    by (simp add: request_def E_rejecting_def c delay_events_def float_result_def)
qed

section \<open>Claims about the transport\<close>

text \<open>
  C1, at a client with 1025 retries and the float backoff factor \<open>0.0\<close>. When every
  attempt times out, and also when attempt 1026 would succeed, \<open>request\<close> makes the
  attempts 0 to 1024 without a delay and then raises \<open>OverflowError\<close> from the product
  \<open>0.0 * 2**1024\<close>: attempt 1026 is not made and no error reporting 1026 attempts is
  raised.
\<close>

theorem C1_overflow_after_1025_attempts:
  "retries C_overflow = 1025
   \<and> backoff_factor C_overflow = PFloat 0
   \<and> session_request E_down C_overflow ''GET'' ''/repos'' [] =
       (\<lambda>n. Raised (TimeoutException ''timed out''))
   \<and> request E_down C_overflow ''GET'' ''/repos'' [] =
       (Some (Inl (OverflowError ''int too large to convert to float'')), map Attempt [0..<1025])
   \<and> session_request E_late C_overflow ''GET'' ''/repos'' [] =
       (\<lambda>n. if n < 1025 then Raised (TimeoutException ''timed out'') else Returned (JDict []))
   \<and> request E_late C_overflow ''GET'' ''/repos'' [] =
       (Some (Inl (OverflowError ''int too large to convert to float'')), map Attempt [0..<1025])
   \<and> length (map Attempt [0..<1025]) = 1025"
proof -
  have c: "retries C_overflow = 1025" "backoff_factor C_overflow = PFloat 0"
    by (simp_all add: C_overflow_def ResilientAsyncHTTPClient_def max_zero_def)
  have down: "request E_down C_overflow ''GET'' ''/repos'' [] =
      (Some (Inl int_too_large), map Attempt [0..<1025])"
    by (rule overflow_run) (simp_all add: E_down_def)
  have late: "request E_late C_overflow ''GET'' ''/repos'' [] =
      (Some (Inl int_too_large), map Attempt [0..<1025])"
    by (rule overflow_run) (simp_all add: E_late_def)
  show ?thesis
    using c down late by (simp add: int_too_large_def E_down_def E_late_def)
qed

text \<open>
  C6, as amended. The trace of every call is a sequence of attempts \<open>0, 1, ...\<close>, each
  retried attempt \<open>k\<close> followed by the suspension asked for before attempt
  \<open>k + 1\<close>; so there is no delay before attempt 0. The delay is Python's value of
  \<open>backoff_factor * 2**k\<close>: the exact product for an int factor and for a float
  factor whose product stays below \<open>2^1024\<close>, and the infinite delay when a float
  product reaches \<open>2^1024\<close>. A delay of 0 is no suspension.
\<close>

theorem C6_backoff_delays_amended:
  "(\<exists>k. snd (request env c m u kw) = retry_trace (backoff_factor c) k
        \<or> snd (request env c m u kw) = retry_trace (backoff_factor c) k @ [Attempt k])
   \<and> (\<forall>i k. delay_events (PInt i) k = (if i * 2 ^ k \<noteq> 0 then [Sleep (PInt (i * 2 ^ k))] else []))
   \<and> (\<forall>q k. k < 1024 \<and> \<bar>q * 2 ^ k\<bar> < 2 ^ 1024 \<longrightarrow>
          delay_events (PFloat q) k = (if q * 2 ^ k \<noteq> 0 then [Sleep (PFloat (q * 2 ^ k))] else []))
   \<and> (\<forall>q k. k < 1024 \<and> 2 ^ 1024 \<le> q * 2 ^ k \<longrightarrow> delay_events (PFloat q) k = [Sleep PInf])"
proof (intro conjI allI impI)
  show "\<exists>k. snd (request env c m u kw) = retry_trace (backoff_factor c) k
        \<or> snd (request env c m u kw) = retry_trace (backoff_factor c) k @ [Attempt k]"
  proof (cases "httpx_installed env \<and> 0 \<le> retries c")
    case False
    then have "snd (request env c m u kw) = retry_trace (backoff_factor c) 0"
      using request_no_attempt(1)[of env c m u kw] by simp
    then show ?thesis by blast
  next
    case True
    then obtain j tail where
      tr: "snd (request env c m u kw) = retry_trace (backoff_factor c) j @ Attempt j # tail"
      and tail: "tail = [] \<or> (\<exists>d. tail = [Sleep d] \<and> mul_pow2 (backoff_factor c) j = Inr d
          \<and> num_truthy d \<and> int j < retries c \<and> retryable (session_request env c m u kw j))"
      using request_summary[of env c m u kw] by blast
    from tail show ?thesis
    proof
      assume "tail = []"
      then show ?thesis using tr by auto
    next
      assume "\<exists>d. tail = [Sleep d] \<and> mul_pow2 (backoff_factor c) j = Inr d
          \<and> num_truthy d \<and> int j < retries c \<and> retryable (session_request env c m u kw j)"
      then have "snd (request env c m u kw) = retry_trace (backoff_factor c) (Suc j)"
        using tr by (auto simp: delay_events_def)
      then show ?thesis by blast
    qed
  qed
next
  fix i :: int and k
  show "delay_events (PInt i) k = (if i * 2 ^ k \<noteq> 0 then [Sleep (PInt (i * 2 ^ k))] else [])"
    by (simp add: delay_events_def)
next
  fix q :: rat and k
  assume "k < 1024 \<and> \<bar>q * 2 ^ k\<bar> < 2 ^ 1024"
  then show "delay_events (PFloat q) k = (if q * 2 ^ k \<noteq> 0 then [Sleep (PFloat (q * 2 ^ k))] else [])"
    by (auto simp: delay_events_def float_result_def)
next
  fix q :: rat and k
  assume "k < 1024 \<and> 2 ^ 1024 \<le> q * 2 ^ k"
  then show "delay_events (PFloat q) k = [Sleep PInf]"
    by (auto simp: delay_events_def float_result_def)
qed

theorem C6_backoff_delays_amended_witness:
  "snd (request E_down (C_backoff (PInt 0)) ''GET'' ''/repos'' []) =
     [Attempt 0, Attempt 1, Attempt 2, Attempt 3]
   \<and> snd (request E_down (C_backoff (PFloat (1/2))) ''GET'' ''/repos'' []) =
     [Attempt 0, Sleep (PFloat (1/2)), Attempt 1, Sleep (PFloat 1), Attempt 2, Sleep (PFloat 2),
      Attempt 3]
   \<and> snd (request E_down (C_backoff (PInt 2)) ''GET'' ''/repos'' []) =
     [Attempt 0, Sleep (PInt 2), Attempt 1, Sleep (PInt 4), Attempt 2, Sleep (PInt 8), Attempt 3]
   \<and> delay_events (PFloat (2 ^ 1023)) 1 = [Sleep PInf]"
proof -
  note T = C6_backoff_delays_amended[of E_down C_two "''GET''" "''/repos''" "[]"]
  have di: "delay_events (PInt i) k = (if i * 2 ^ k \<noteq> 0 then [Sleep (PInt (i * 2 ^ k))] else [])"
    for i k
    using T by blast
  have df: "delay_events (PFloat q) k = (if q * 2 ^ k \<noteq> 0 then [Sleep (PFloat (q * 2 ^ k))] else [])"
    if "k < 1024 \<and> \<bar>q * 2 ^ k\<bar> < 2 ^ 1024" for q k
    using T that by blast
  have dinf: "delay_events (PFloat q) k = [Sleep PInf]" if "k < 1024 \<and> 2 ^ 1024 \<le> q * 2 ^ k" for q k
    using T that by blast
  have three: "retry_trace b 3 = retry_trace b (Suc (Suc (Suc 0)))" for b
    by (simp add: numeral_eq_Suc)
  have b: "retries (C_backoff b) = int 3" for b
    by (simp add: C_backoff_def ResilientAsyncHTTPClient_def)
  have f: "backoff_factor (C_backoff (PInt 0)) = PInt 0"
      "backoff_factor (C_backoff (PFloat (1/2))) = PFloat (1/2)"
      "backoff_factor (C_backoff (PInt 2)) = PInt 2"
    by (simp_all add: C_backoff_def ResilientAsyncHTTPClient_def max_zero_def)
  have p: "delay_passes (PInt 0) finite_sleep i" "delay_passes (PInt 2) finite_sleep i" for i
    by (simp_all add: delay_passes_def finite_sleep_def)
  have h0: "delay_events (PFloat (1/2)) 0 = [Sleep (PFloat (1/2))]"
    using df[of 0 "1/2"] by simp
  have h1: "delay_events (PFloat (1/2)) (Suc 0) = [Sleep (PFloat 1)]"
    using df[of "Suc 0" "1/2"] by simp
  have h2: "delay_events (PFloat (1/2)) (Suc (Suc 0)) = [Sleep (PFloat 2)]"
    using df[of "Suc (Suc 0)" "1/2"] by simp
  have t0: "snd (request E_down (C_backoff (PInt 0)) ''GET'' ''/repos'' []) =
     [Attempt 0, Attempt 1, Attempt 2, Attempt 3]"
    by (simp add: down_fails[OF b] f p three di)
  have t1: "snd (request E_down (C_backoff (PFloat (1/2))) ''GET'' ''/repos'' []) =
     [Attempt 0, Sleep (PFloat (1/2)), Attempt 1, Sleep (PFloat 1), Attempt 2, Sleep (PFloat 2),
      Attempt 3]"
    by (simp add: down_fails[OF b] f half_passes three h0 h1 h2)
  have t2: "snd (request E_down (C_backoff (PInt 2)) ''GET'' ''/repos'' []) =
     [Attempt 0, Sleep (PInt 2), Attempt 1, Sleep (PInt 4), Attempt 2, Sleep (PInt 8), Attempt 3]"
    by (simp add: down_fails[OF b] f p three di)
  have inf: "delay_events (PFloat (2 ^ 1023)) 1 = [Sleep PInf]"
    by (rule dinf) simp
  show ?thesis using t0 t1 t2 inf by blast
qed

text \<open>
  C6 as stated fails on a float factor whose product leaves the float range: with the
  factor \<open>2.0**1023\<close> the delay before attempt 2 is not \<open>2.0**1024\<close> but the
  infinite float, and the suspension never ends.
\<close>

theorem C6_backoff_delays_counterexample:
  "backoff_factor C_huge = PFloat (2 ^ 1023)
   \<and> request E_down C_huge ''GET'' ''/repos'' [] =
       (None, [Attempt 0, Sleep (PFloat (2 ^ 1023)), Attempt 1, Sleep PInf])
   \<and> Sleep PInf \<noteq> Sleep (PFloat (2 ^ 1023 * 2 ^ (2 - 1)))"
proof -
  let ?net = "session_request E_down C_huge ''GET'' ''/repos'' []"
  let ?slp = "asyncio_sleep E_down"
  have c: "retries C_huge = 2" "backoff_factor C_huge = PFloat (2 ^ 1023)"
    by (simp_all add: C_huge_def ResilientAsyncHTTPClient_def max_zero_def)
  have net: "?net n = Raised (TimeoutException ''timed out'')" for n
    by (simp add: E_down_def)
  have d0: "delay_events (PFloat (2 ^ 1023)) 0 = [Sleep (PFloat (2 ^ 1023))]"
    by (simp add: delay_events_def float_result_def)
  have m1: "mul_pow2 (PFloat (2 ^ 1023)) 1 = Inr PInf"
    by (simp add: float_result_def)
  have "\<forall>i<1. continues C_huge ?net ?slp i"
    by (simp add: huge_first_continues)
  from loop_run[OF this] obtain le where run:
    "request_loop C_huge ?net ?slp 0 None [] =
       request_loop C_huge ?net ?slp (int 1) le (retry_trace (backoff_factor C_huge) 1)"
    by blast
  have stop: "request_loop C_huge ?net ?slp (int 1) le (retry_trace (backoff_factor C_huge) 1) =
      (None, retry_trace (backoff_factor C_huge) 1
         @ [Attempt (n_attempts (retry_trace (backoff_factor C_huge) 1)), Sleep PInf])"
    by (rule loop_never_resumes[where e = "TimeoutException ''timed out''"])
      (simp_all add: c net float_result_def E_down_def finite_sleep_def)
  have "request E_down C_huge ''GET'' ''/repos'' [] =
       (None, [Attempt 0, Sleep (PFloat (2 ^ 1023)), Attempt 1, Sleep PInf])"
    using run stop by (simp add: request_def E_down_def c delay_events_def float_result_def)
  then show ?thesis using c by simp
qed

text \<open>
  C7. In every call in which attempt \<open>k\<close> is made and a response with an error status
  is received (\<open>raise_for_status\<close> raises), \<open>request\<close> fails at once with the
  error built from the response and attempt \<open>k\<close> is the last event, however many
  retries remain; and an attempt is followed by another one only if it raised an
  exception of the retried classes.
\<close>

theorem C7_status_error_not_retried:
  "(Attempt k \<in> set (snd (request env c m u kw))
      \<and> session_request env c m u kw k = Raised (HTTPStatusError code reason txt s) \<longrightarrow>
    (\<exists>tr. request env c m u kw =
             (Some (Inl (ToolExecutionError
                (''API request failed: '' @ str_nat code @ '' '' @ reason @ ''. Details: ''
                   @ (if txt \<noteq> [] then txt else s)))), tr)
          \<and> n_attempts tr = Suc k \<and> last tr = Attempt k))
   \<and> (\<forall>i. Suc i < n_attempts (snd (request env c m u kw)) \<longrightarrow>
          (\<exists>e. session_request env c m u kw i = Raised e \<and> is_transient e))"
proof (cases "httpx_installed env \<and> 0 \<le> retries c")
  case False
  then have "snd (request env c m u kw) = []" by (rule request_no_attempt(1))
  then show ?thesis by simp
next
  case True
  then have inst: "httpx_installed env" and nonneg: "0 \<le> retries c" by simp_all
  obtain j tail where run: "\<forall>i<j. continues c (session_request env c m u kw) (asyncio_sleep env) i"
    and jr: "int j \<le> retries c"
    and tr: "snd (request env c m u kw) = retry_trace (backoff_factor c) j @ Attempt j # tail"
    and tail: "tail = [] \<or> (\<exists>d. tail = [Sleep d] \<and> mul_pow2 (backoff_factor c) j = Inr d
        \<and> num_truthy d \<and> int j < retries c \<and> retryable (session_request env c m u kw j))"
    and st: "\<forall>e. session_request env c m u kw j = Raised e \<and> is_status_error e \<longrightarrow>
        request env c m u kw =
          (Some (Inl (ToolExecutionError (status_error_message e))),
           retry_trace (backoff_factor c) j @ [Attempt j])"
    using request_summary[OF inst nonneg, of m u kw] by blast
  have mem: "Attempt k \<in> set (snd (request env c m u kw)) \<longleftrightarrow> k \<le> j" for k
    using tr tail by auto
  have cnt: "n_attempts (snd (request env c m u kw)) = Suc j"
    using tr tail by auto
  have first: "\<exists>tr. request env c m u kw =
             (Some (Inl (ToolExecutionError
                (''API request failed: '' @ str_nat code @ '' '' @ reason @ ''. Details: ''
                   @ (if txt \<noteq> [] then txt else s)))), tr)
          \<and> n_attempts tr = Suc k \<and> last tr = Attempt k"
    if a: "Attempt k \<in> set (snd (request env c m u kw))"
      and b: "session_request env c m u kw k = Raised (HTTPStatusError code reason txt s)"
  proof -
    have "k \<le> j" using a mem by simp
    moreover have "\<not> k < j"
    proof
      assume "k < j"
      then have "continues c (session_request env c m u kw) (asyncio_sleep env) k"
        using run by simp
      then show False using b by (auto dest: continues_retryable)
    qed
    ultimately have "k = j" by simp
    then have "request env c m u kw =
          (Some (Inl (ToolExecutionError (status_error_message (HTTPStatusError code reason txt s)))),
           retry_trace (backoff_factor c) k @ [Attempt k])"
      using st b by simp
    then show ?thesis by simp
  qed
  have second: "\<exists>e. session_request env c m u kw i = Raised e \<and> is_transient e"
    if "Suc i < n_attempts (snd (request env c m u kw))" for i
  proof -
    have "i < j" using that cnt by simp
    then show ?thesis using run continues_retryable by blast
  qed
  show ?thesis using first second by blast
qed

theorem C7_status_error_not_retried_witness:
  "Attempt 1 \<in> set (snd (request E_rejecting C_two ''GET'' ''/repos'' []))
   \<and> retries C_two = 2
   \<and> session_request E_rejecting C_two ''GET'' ''/repos'' [] 0 = Raised (RequestError ''connection reset'')
   \<and> session_request E_rejecting C_two ''GET'' ''/repos'' [] 1 =
         Raised (HTTPStatusError 503 ''Service Unavailable'' ''overloaded'' ''Server error 503'')
   \<and> fst (request E_rejecting C_two ''GET'' ''/repos'' []) =
         Some (Inl (ToolExecutionError ''API request failed: 503 Service Unavailable. Details: overloaded''))
   \<and> n_attempts (snd (request E_rejecting C_two ''GET'' ''/repos'' [])) = 2
   \<and> last (snd (request E_rejecting C_two ''GET'' ''/repos'' [])) = Attempt 1"
proof -
  have pre: "Attempt 1 \<in> set (snd (request E_rejecting C_two ''GET'' ''/repos'' []))
        \<and> session_request E_rejecting C_two ''GET'' ''/repos'' [] 1 =
            Raised (HTTPStatusError 503 ''Service Unavailable'' ''overloaded'' ''Server error 503'')"
    by (simp add: rejecting_trace) (simp add: E_rejecting_def)
  have env: "retries C_two = 2"
      "session_request E_rejecting C_two ''GET'' ''/repos'' [] 0 = Raised (RequestError ''connection reset'')"
    by (simp_all add: C_two_def ResilientAsyncHTTPClient_def E_rejecting_def)
  have code: "str_nat 503 = ''503''"
    by (simp add: str_nat.simps digit_char_def)
  from C7_status_error_not_retried[of 1 E_rejecting C_two "''GET''" "''/repos''" "[]" 503
      "''Service Unavailable''" "''overloaded''" "''Server error 503''",
      THEN conjunct1, THEN mp, OF pre]
  obtain tr where "request E_rejecting C_two ''GET'' ''/repos'' [] =
               (Some (Inl (ToolExecutionError
                  (''API request failed: '' @ str_nat 503 @ '' '' @ ''Service Unavailable''
                     @ ''. Details: '' @ (if ''overloaded'' \<noteq> [] then ''overloaded'' else ''Server error 503'')))), tr)"
      "n_attempts tr = Suc 1" "last tr = Attempt 1"
    by blast
  then have "fst (request E_rejecting C_two ''GET'' ''/repos'' []) =
         Some (Inl (ToolExecutionError ''API request failed: 503 Service Unavailable. Details: overloaded''))"
      "n_attempts (snd (request E_rejecting C_two ''GET'' ''/repos'' [])) = 2"
      "last (snd (request E_rejecting C_two ''GET'' ''/repos'' [])) = Attempt 1"
    by (simp_all add: code)
  then show ?thesis using pre env by simp
qed




section \<open>Claims about the dispatcher, the catalog and the binding layer\<close>

lemma invoke_tool_execution_error:
  assumes "input_model spec (PyDict (input req)) = Inr payload"
    and "handler spec (PyModel payload) (ctx req) (world st) = (HRaised (ToolExecutionError X), w')"
  shows "ToolSpec_invoke spec req st =
     (Inr \<lparr> ok = False, output' = [], error = Some X \<rparr>,
      \<lparr> world = w',
        log = log st @ [InputValidation (name spec) (PyDict (input req)),
                        HandlerCall (name spec) (PyModel payload) (ctx req)] \<rparr>)"
proof -
  have arg: "(if input req \<noteq> [] then input req else []) = input req" by simp
  show ?thesis
    unfolding ToolSpec_invoke_def Let_def arg assms(1)
    by (simp add: assms(2) ToolInvocationResponse_def)
qed

lemma invoke_invalid:
  assumes "input_model spec (PyDict (input req)) = Inl e"
  shows "ToolSpec_invoke spec req st =
     (Inl e, st \<lparr> log := log st @ [InputValidation (name spec) (PyDict (input req))] \<rparr>)"
proof -
  have arg: "(if input req \<noteq> [] then input req else []) = input req" by simp
  show ?thesis
    unfolding ToolSpec_invoke_def Let_def arg assms by simp
qed

text \<open>
  C2. For a registered tool and an input that passes its input model: when the handler
  raises \<open>ToolExecutionError\<close> with message \<open>X\<close>, \<open>invoke\<close> returns (it does
  not raise) the response with \<open>ok = False\<close>, an empty output and \<open>error = X\<close>.
\<close>

theorem C2_tool_execution_error_is_a_response:
  assumes "ToolCatalog_get cat (tool req) = Some spec"
    and "input_model spec (PyDict (input req)) = Inr payload"
    and "fst (handler spec (PyModel payload) (ctx req) (world st)) = HRaised (ToolExecutionError X)"
  shows "fst (ToolSpec_invoke spec req st) = Inr \<lparr> ok = False, output' = [], error = Some X \<rparr>
       \<and> fst (AIHubMCPServer_invoke cat req st) = Inr \<lparr> ok = False, output' = [], error = Some X \<rparr>"
proof -
  obtain w' where "handler spec (PyModel payload) (ctx req) (world st) = (HRaised (ToolExecutionError X), w')"
    using assms(3) by (cases "handler spec (PyModel payload) (ctx req) (world st)") auto
  then have "fst (ToolSpec_invoke spec req st) = Inr \<lparr> ok = False, output' = [], error = Some X \<rparr>"
    by (simp add: invoke_tool_execution_error[OF assms(2)])
  then show ?thesis using assms(1) by (simp add: AIHubMCPServer_invoke_def)
qed

theorem C2_tool_execution_error_is_a_response_witness:
  "ToolCatalog_get Cat_echo (tool R_boom) = Some T_echo
   \<and> input_model T_echo (PyDict (input R_boom)) = Inr [(''text'', PyStr ''boom'')]
   \<and> fst (handler T_echo (PyModel [(''text'', PyStr ''boom'')]) (ctx R_boom) (world S0)) =
         HRaised (ToolExecutionError ''X'')
   \<and> fst (AIHubMCPServer_invoke Cat_echo R_boom S0) =
         Inr \<lparr> ok = False, output' = [], error = Some ''X'' \<rparr>"
proof -
  have a: "ToolCatalog_get Cat_echo (tool R_boom) = Some T_echo"
    by (simp add: ToolCatalog_get_def Cat_echo_def R_boom_def)
  have b: "input_model T_echo (PyDict (input R_boom)) = Inr [(''text'', PyStr ''boom'')]"
    by (simp add: T_echo_def echo_input_def R_boom_def)
  have c: "fst (handler T_echo (PyModel [(''text'', PyStr ''boom'')]) (ctx R_boom) (world S0)) =
         HRaised (ToolExecutionError ''X'')"
    by (simp add: T_echo_def)
  from C2_tool_execution_error_is_a_response[OF a b c] a b c show ?thesis by simp
qed

text \<open>
  C3. For a request whose tool name is not in the catalog, the server's \<open>invoke\<close>
  raises (\<open>ToolExecutionError\<close> with the message \<open>Unknown tool: <name>\<close>) and
  leaves the run as it was: nothing has been validated and no handler has been called.
\<close>

theorem C3_unknown_tool:
  assumes "ToolCatalog_get cat (tool req) = None"
  shows "AIHubMCPServer_invoke cat req st =
           (Inl (ToolExecutionError (''Unknown tool: '' @ tool req)), st)"
  using assms by (simp add: AIHubMCPServer_invoke_def)

theorem C3_unknown_tool_witness:
  "ToolCatalog_get Cat_echo (tool R_unknown) = None
   \<and> AIHubMCPServer_invoke Cat_echo R_unknown S0 =
         (Inl (ToolExecutionError ''Unknown tool: nope''), S0)"
proof -
  have a: "ToolCatalog_get Cat_echo (tool R_unknown) = None"
    by (simp add: ToolCatalog_get_def Cat_echo_def R_unknown_def)
  from C3_unknown_tool[OF a] a show ?thesis by (simp add: R_unknown_def)
qed

text \<open>
  C4. For a registered tool and an input its input model rejects, the invocation ends by
  raising the validation error; the only step taken is that validation, the handler is
  not called and the world is unchanged.
\<close>

theorem C4_invalid_input_never_reaches_handler:
  assumes "ToolCatalog_get cat (tool req) = Some spec"
    and "input_model spec (PyDict (input req)) = Inl e"
  shows "AIHubMCPServer_invoke cat req st =
           (Inl e, st \<lparr> log := log st @ [InputValidation (name spec) (PyDict (input req))] \<rparr>)
       \<and> ToolSpec_invoke spec req st =
           (Inl e, st \<lparr> log := log st @ [InputValidation (name spec) (PyDict (input req))] \<rparr>)
       \<and> filter is_handler_call (log (snd (AIHubMCPServer_invoke cat req st))) =
           filter is_handler_call (log st)
       \<and> world (snd (AIHubMCPServer_invoke cat req st)) = world st"
  using assms by (simp add: AIHubMCPServer_invoke_def invoke_invalid)

theorem C4_invalid_input_never_reaches_handler_witness:
  "ToolCatalog_get Cat_echo (tool R_bad) = Some T_echo
   \<and> input_model T_echo (PyDict (input R_bad)) = Inl (ValidationError ''text: a string is required'')
   \<and> AIHubMCPServer_invoke Cat_echo R_bad S0 =
         (Inl (ValidationError ''text: a string is required''),
          \<lparr> world = 0, log = [InputValidation ''echo'' (PyDict [(''text'', PyInt 3)])] \<rparr>)"
proof -
  have a: "ToolCatalog_get Cat_echo (tool R_bad) = Some T_echo"
    by (simp add: ToolCatalog_get_def Cat_echo_def R_bad_def)
  have b: "input_model T_echo (PyDict (input R_bad)) = Inl (ValidationError ''text: a string is required'')"
    by (simp add: T_echo_def echo_input_def R_bad_def)
  from C4_invalid_input_never_reaches_handler[OF a b, of S0] a b show ?thesis
    by (simp add: S0_def R_bad_def T_echo_def)
qed

text \<open>
  C5. Registering a contract whose name is already in the catalog raises
  (\<open>ValueError\<close> with the message \<open>Tool already registered: <name>\<close>) and leaves
  the catalog as it was.
\<close>

theorem C5_duplicate_registration:
  assumes "ToolCatalog_get cat (name spec) \<noteq> None"
  shows "ToolCatalog_register spec cat =
           (Inl (ValueError (''Tool already registered: '' @ name spec)), cat)"
  using assms by (simp add: ToolCatalog_register_def ToolCatalog_get_def)

theorem C5_duplicate_registration_witness:
  "ToolCatalog_get Cat_echo (name T_echo) \<noteq> None
   \<and> ToolCatalog_register T_echo Cat_echo =
         (Inl (ValueError ''Tool already registered: echo''), Cat_echo)"
proof -
  have a: "ToolCatalog_get Cat_echo (name T_echo) \<noteq> None"
    by (simp add: ToolCatalog_get_def Cat_echo_def T_echo_def)
  from C5_duplicate_registration[OF a] a show ?thesis by (simp add: T_echo_def)
qed

text \<open>
  C9, at keyword arguments whose \<open>arguments\<close> entry is a root model over a list. The
  normalisation returns the dumped root, a list and not a dict, and \<open>mcp_handler\<close>
  validates that list against the input model. The same list passed as it is goes
  through \<open>dict(...)\<close> or the \<open>value\<close> wrapper and comes out as a dict.
\<close>

theorem C9_dumped_arguments_not_a_mapping:
  "extract_invocation_payload py_dict [] K_root = (PyList [PyInt 1, PyInt 2], PyNone)
   \<and> \<not> is_dict (fst (extract_invocation_payload py_dict [] K_root))
   \<and> mcp_handler py_dict T_echo [] K_root S0 =
       (Inl (ValidationError ''a dictionary is required''),
        \<lparr> world = 0, log = [InputValidation ''echo'' (PyList [PyInt 1, PyInt 2])] \<rparr>)
   \<and> is_dict (fst (extract_invocation_payload py_dict [] K_list))"
  by (simp add: extract_invocation_payload_def kw_arguments_def kw_context_def has_key_def
      dict_get_def K_root_def K_list_def as_mapping_def mcp_handler_def T_echo_def echo_input_def
      S0_def split: option.splits)

section \<open>Claims about the GitHub issues adapter\<close>

lemma ebind_Inr: "ebind m f = Inr y \<Longrightarrow> \<exists>x. m = Inr x \<and> f x = Inr y"
  by (cases m) (simp_all add: ebind_def)

lemma j_slice_to_len: "j_slice_to n v = Inr w \<Longrightarrow> py_len_le n w"
  by (cases v) auto

lemma issue_body_len: "issue_body item = Inr body \<Longrightarrow> py_len_le 500 body"
  unfolding issue_body_def by (auto dest!: ebind_Inr dest: j_slice_to_len)

lemma issue_body_dict:
  "issue_body (JDict d) =
     (case map_of d ''body'' of
        None \<Rightarrow> Inr (JStr [])
      | Some b \<Rightarrow> j_slice_to 500 (if truthy b then b else JStr []))"
  by (simp add: issue_body_def ebind_def split: option.splits)

lemma ebind_InrE:
  assumes "ebind m f = Inr y"
  obtains x where "m = Inr x" and "f x = Inr y"
  using assms by (cases m) (simp_all add: ebind_def)

lemma issue_entry_body:
  assumes "issue_entry item = Inr entry"
  shows "\<exists>fields body. entry = JDict fields \<and> map_of fields ''body'' = Some body
           \<and> issue_body item = Inr body"
  using assms unfolding issue_entry_def
  by (elim ebind_InrE) auto

lemma collect_issues_shape:
  "collect_issues items acc = Inr out \<Longrightarrow>
   \<exists>new. out = acc @ new
     \<and> list_all2 (\<lambda>item entry. issue_entry item = Inr entry)
          (filter (\<lambda>i. \<not> is_pull_request i) items) new"
proof (induction items arbitrary: acc)
  case Nil
  then show ?case by simp
next
  case (Cons item rest)
  show ?case
  proof (cases "j_in ''pull_request'' item")
    case (Inl e)
    then show ?thesis using Cons.prems by simp
  next
    case (Inr is_pr)
    show ?thesis
    proof (cases is_pr)
      case True
      then have "collect_issues rest acc = Inr out" using Cons.prems Inr by simp
      from Cons.IH[OF this] show ?thesis using Inr True by (simp add: is_pull_request_def)
    next
      case False
      then obtain entry where e: "issue_entry item = Inr entry"
          and r: "collect_issues rest (acc @ [entry]) = Inr out"
        using Cons.prems Inr by (cases "issue_entry item") auto
      from Cons.IH[OF r] obtain new where "out = (acc @ [entry]) @ new"
          "list_all2 (\<lambda>item entry. issue_entry item = Inr entry)
             (filter (\<lambda>i. \<not> is_pull_request i) rest) new"
        by blast
      then show ?thesis using Inr False e
        by (intro exI[of _ "entry # new"]) (simp add: is_pull_request_def)
    qed
  qed
qed

lemma list_issues_example:
  "list_issues E_issues C_two ''octo'' ''hub'' ''open'' None 1 30 = (Some (Inr shaped_issues), [Attempt 0])"
proof -
  have "request E_issues C_two ''GET'' (''/repos/'' @ ''octo'' @ ''/'' @ ''hub'' @ ''/issues'')
           [(''params'', JDict (issues_params ''open'' None 1 30))] =
        (Some (Inr upstream_issues), [Attempt 0])"
    unfolding request_def
    by (subst request_loop.simps)
      (simp add: E_issues_def C_two_def ResilientAsyncHTTPClient_def)
  then show ?thesis
    by (simp add: list_issues_def upstream_issues_def shaped_issues_def ebind_def
        issue_entry_def issue_body_def names_of_def)
qed

text \<open>
  C10. Whenever \<open>list_issues\<close> returns, its entries are, in order, the shaped items
  of the upstream response that are not marked as pull requests, and the \<open>body\<close>
  field of every entry has at most 500 characters: an upstream string body is cut to
  its first 500 characters, an absent or null body becomes the empty string.
\<close>

theorem C10_issue_bodies_bounded_pull_requests_excluded:
  assumes "list_issues env client owner repo state labels page per_page = (Some (Inr entries), evs)"
  shows
    "(\<exists>response items.
        fst (request env client ''GET'' (''/repos/'' @ owner @ ''/'' @ repo @ ''/issues'')
               [(''params'', JDict (issues_params state labels page per_page))]) = Some (Inr response)
      \<and> j_iter response = Inr items
      \<and> list_all2
           (\<lambda>item entry. \<exists>fields body.
              entry = JDict fields \<and> map_of fields ''body'' = Some body
              \<and> issue_body item = Inr body \<and> py_len_le 500 body)
           (filter (\<lambda>i. \<not> is_pull_request i) items) entries)
   \<and> (\<forall>entry \<in> set entries. \<exists>fields body.
          entry = JDict fields \<and> map_of fields ''body'' = Some body \<and> py_len_le 500 body)
   \<and> (\<forall>d. is_pull_request (JDict d) = (map_of d ''pull_request'' \<noteq> None))
   \<and> (\<forall>d s. map_of d ''body'' = Some (JStr s) \<longrightarrow> issue_body (JDict d) = Inr (JStr (take 500 s)))
   \<and> (\<forall>d. map_of d ''body'' = None \<or> map_of d ''body'' = Some JNull \<longrightarrow>
          issue_body (JDict d) = Inr (JStr []))"
proof -
  let ?req = "request env client ''GET'' (''/repos/'' @ owner @ ''/'' @ repo @ ''/issues'')
               [(''params'', JDict (issues_params state labels page per_page))]"
  obtain res tr where rq: "?req = (res, tr)" by (cases ?req)
  from assms rq obtain response where resp: "res = Some (Inr response)"
    and coll: "ebind (j_iter response) (\<lambda>items. collect_issues items []) = Inr entries"
    by (cases res) (auto simp: list_issues_def split: sum.splits)
  from coll obtain items where it: "j_iter response = Inr items"
    and c: "collect_issues items [] = Inr entries"
    by (blast dest!: ebind_Inr)
  from collect_issues_shape[OF c]
  have sh: "list_all2 (\<lambda>item entry. issue_entry item = Inr entry)
          (filter (\<lambda>i. \<not> is_pull_request i) items) entries"
    by simp
  have rel: "list_all2
           (\<lambda>item entry. \<exists>fields body.
              entry = JDict fields \<and> map_of fields ''body'' = Some body
              \<and> issue_body item = Inr body \<and> py_len_le 500 body)
           (filter (\<lambda>i. \<not> is_pull_request i) items) entries"
    using sh
  proof (rule list_all2_mono)
    fix item entry
    assume "issue_entry item = Inr entry"
    from issue_entry_body[OF this] obtain fields body where
      "entry = JDict fields" "map_of fields ''body'' = Some body" "issue_body item = Inr body"
      by blast
    then show "\<exists>fields body.
              entry = JDict fields \<and> map_of fields ''body'' = Some body
              \<and> issue_body item = Inr body \<and> py_len_le 500 body"
      using issue_body_len by blast
  qed
  have all: "\<forall>entry \<in> set entries. \<exists>fields body.
          entry = JDict fields \<and> map_of fields ''body'' = Some body \<and> py_len_le 500 body"
  proof
    fix entry assume "entry \<in> set entries"
    then obtain item where "\<exists>fields body.
              entry = JDict fields \<and> map_of fields ''body'' = Some body
              \<and> issue_body item = Inr body \<and> py_len_le 500 body"
      using rel by (auto simp: list_all2_conv_all_nth in_set_conv_nth)
    then show "\<exists>fields body.
          entry = JDict fields \<and> map_of fields ''body'' = Some body \<and> py_len_le 500 body"
      by blast
  qed
  have pr: "\<forall>d. is_pull_request (JDict d) = (map_of d ''pull_request'' \<noteq> None)"
    by (simp add: is_pull_request_def)
  have long: "\<forall>d s. map_of d ''body'' = Some (JStr s) \<longrightarrow>
      issue_body (JDict d) = Inr (JStr (take 500 s))"
    by (simp add: issue_body_dict)
  have absent: "\<forall>d. map_of d ''body'' = None \<or> map_of d ''body'' = Some JNull \<longrightarrow>
          issue_body (JDict d) = Inr (JStr [])"
    by (auto simp: issue_body_dict)
  have first: "\<exists>response items. fst ?req = Some (Inr response) \<and> j_iter response = Inr items
      \<and> list_all2
           (\<lambda>item entry. \<exists>fields body.
              entry = JDict fields \<and> map_of fields ''body'' = Some body
              \<and> issue_body item = Inr body \<and> py_len_le 500 body)
           (filter (\<lambda>i. \<not> is_pull_request i) items) entries"
    using rq resp it rel by auto
  show ?thesis using first all pr long absent by blast
qed

theorem C10_issue_bodies_bounded_pull_requests_excluded_witness:
  "list_issues E_issues C_two ''octo'' ''hub'' ''open'' None 1 30 = (Some (Inr shaped_issues), [Attempt 0])
   \<and> length shaped_issues = 2
   \<and> (\<exists>fields body. shaped_issues ! 0 = JDict fields \<and> map_of fields ''body'' = Some body
          \<and> py_len_le 500 body)
   \<and> (\<exists>fields body. shaped_issues ! 1 = JDict fields \<and> map_of fields ''body'' = Some body
          \<and> py_len_le 500 body)
   \<and> issue_body (JDict [(''number'', JInt 2), (''body'', JStr (replicate 600 CHR ''a''))]) =
         Inr (JStr (replicate 500 CHR ''a''))
   \<and> issue_body (JDict [(''number'', JInt 3), (''body'', JNull)]) = Inr (JStr [])
   \<and> is_pull_request (JDict [(''number'', JInt 1), (''pull_request'', JDict [(''url'', JStr ''u'')])])"
proof -
  note T = C10_issue_bodies_bounded_pull_requests_excluded[OF list_issues_example]
  from T have all: "\<forall>entry \<in> set shaped_issues. \<exists>fields body.
          entry = JDict fields \<and> map_of fields ''body'' = Some body \<and> py_len_le 500 body"
    by blast
  have len: "length shaped_issues = 2" by (simp add: shaped_issues_def)
  then have "shaped_issues ! 0 \<in> set shaped_issues" "shaped_issues ! 1 \<in> set shaped_issues"
    by simp_all
  with all have e: "\<exists>fields body. shaped_issues ! 0 = JDict fields \<and> map_of fields ''body'' = Some body
          \<and> py_len_le 500 body"
      "\<exists>fields body. shaped_issues ! 1 = JDict fields \<and> map_of fields ''body'' = Some body
          \<and> py_len_le 500 body"
    by blast+
  from T have long: "\<forall>d s. map_of d ''body'' = Some (JStr s) \<longrightarrow>
      issue_body (JDict d) = Inr (JStr (take 500 s))"
    and absent: "\<forall>d. map_of d ''body'' = None \<or> map_of d ''body'' = Some JNull \<longrightarrow>
          issue_body (JDict d) = Inr (JStr [])"
    and pr: "\<forall>d. is_pull_request (JDict d) = (map_of d ''pull_request'' \<noteq> None)"
    by blast+
  have b2: "issue_body (JDict [(''number'', JInt 2), (''body'', JStr (replicate 600 CHR ''a''))]) =
         Inr (JStr (replicate 500 CHR ''a''))"
    using long[rule_format, of "[(''number'', JInt 2), (''body'', JStr (replicate 600 CHR ''a''))]"
        "replicate 600 CHR ''a''"]
    by simp
  have b3: "issue_body (JDict [(''number'', JInt 3), (''body'', JNull)]) = Inr (JStr [])"
    using absent[rule_format, of "[(''number'', JInt 3), (''body'', JNull)]"] by simp
  have p1: "is_pull_request (JDict [(''number'', JInt 1), (''pull_request'', JDict [(''url'', JStr ''u'')])])"
    using pr by simp
  show ?thesis using list_issues_example len e b2 b3 p1 by blast
qed

end
